theory Spec2Isabelle
  imports Complex_Main "HOL-Library.Word"
begin

unbundle bit_operations_syntax

section \<open>The relational schema of \<^verbatim>\<open>database/models.py\<close>\<close>

text \<open>
  The repository declares its persistence layer as SQLAlchemy models over PostgreSQL.
  The declarations are embedded as records (one per table), and the statements the
  database accepts as functions on a record of tables that return either an error or
  the new tables. A column declared \<^verbatim>\<open>nullable=True\<close> is an \<open>option\<close>; a
  \<^verbatim>\<open>TEXT\<close> value is a \<open>string\<close>, a list of characters; a UUID is an opaque
  number; a timestamp is a number of ticks.
\<close>

subsection \<open>Enumerations (\<^verbatim>\<open>database/enums.py\<close>)\<close>

datatype EmailStatus = PENDING | CLASSIFYING | CLASSIFIED | FAILED | QUARANTINED

datatype Priority = LOW | NORMAL | HIGH | URGENT

datatype Sentiment = POSITIVE | NEUTRAL | NEGATIVE | URGENT_SENTIMENT

datatype DeadlineConfidence = EXTRACTED | INFERRED | NONE

subsection \<open>Column types\<close>

type_synonym uuid = nat

type_synonym timestamp = nat

datatype json =
    JNull
  | JBool bool
  | JNumber int
  | JString string
  | JArray "json list"
  | JObject "(string \<times> json) list"

datatype db_error =
    UniqueViolation string
  | ForeignKeyViolation string
  | CheckViolation string
  | NumericValueOutOfRange
  | InvalidParameterValue string
  | NoSuchRow

subsection \<open>Tables\<close>

text \<open>
  Table \<^verbatim>\<open>emails\<close>. The primary key \<^verbatim>\<open>id\<close> is written \<open>email_pk\<close>, and
  \<^verbatim>\<open>created_at\<close> is written \<open>email_created_at\<close>, since other tables have columns
  of the same names.
\<close>

record Email =
  email_pk :: uuid
  message_id :: string
  sender :: string
  sender_domain :: string
  subject :: string
  received_timestamp :: timestamp
  body_hash :: string
  body_encrypted :: "string option"
  classification_status :: EmailStatus
  email_created_at :: timestamp
  updated_at :: timestamp

text \<open>
  Table \<^verbatim>\<open>classifications\<close>. \<^verbatim>\<open>confidence\<close> is \<^verbatim>\<open>NUMERIC(3, 2)\<close>, an exact
  decimal, held here as a rational.
\<close>

record ClassificationResult =
  classification_pk :: uuid
  email_id :: uuid
  primary_category :: string
  secondary_categories :: "string list"
  priority :: Priority
  deadline_utc :: "timestamp option"
  deadline_confidence :: DeadlineConfidence
  confidence :: rat
  rationale :: "string option"
  detected_entities :: json
  sentiment :: Sentiment
  action_items :: json
  thread_context :: json
  rag_context_used :: "string list"
  suggested_folder :: "string option"
  schema_version :: string
  processed_timestamp :: timestamp
  classification_created_at :: timestamp

text \<open>Table \<^verbatim>\<open>feedback\<close>.\<close>

record UserFeedback =
  feedback_pk :: uuid
  feedback_email_id :: uuid
  original_category :: string
  corrected_category :: string
  reason :: "string option"
  feedback_timestamp :: timestamp
  incorporated :: bool

record database =
  emails :: "Email list"
  classifications :: "ClassificationResult list"
  feedback :: "UserFeedback list"

definition empty_database :: database where
  "empty_database = \<lparr>emails = [], classifications = [], feedback = []\<rparr>"

subsection \<open>The SQL functions the schema calls\<close>

text \<open>
  \<^verbatim>\<open>split_part(string, delimiter, n)\<close> splits the string at each occurrence of the
  delimiter and returns field \<open>n\<close>, counted from one; a field past the last one is the
  empty string, and field zero is an error. The schema calls it with the one-character
  delimiter \<^verbatim>\<open>'@'\<close>, so the delimiter is a character here.
\<close>

fun split_fields :: "char \<Rightarrow> string \<Rightarrow> string list" where
  "split_fields d [] = [[]]"
| "split_fields d (c # cs) =
     (if c = d then [] # split_fields d cs
      else (case split_fields d cs of [] \<Rightarrow> [[c]] | f # fs \<Rightarrow> (c # f) # fs))"

definition split_part :: "string \<Rightarrow> char \<Rightarrow> nat \<Rightarrow> db_error + string" where
  "split_part s d n =
     (if n = 0 then Inl (InvalidParameterValue ''field position must not be zero'')
      else if n \<le> length (split_fields d s) then Inr (split_fields d s ! (n - 1))
      else Inr [])"

text \<open>
  \<^verbatim>\<open>array_length(a, 1)\<close> is NULL for an empty array; \<^verbatim>\<open>length(t)\<close> is NULL for a
  NULL text; \<^verbatim>\<open>jsonb_array_length(j)\<close> raises on anything but an array.
\<close>

definition array_length :: "'a list \<Rightarrow> nat option" where
  "array_length a = (if a = [] then None else Some (length a))"

definition text_length :: "string option \<Rightarrow> nat option" where
  "text_length t = map_option length t"

definition jsonb_array_length :: "json \<Rightarrow> db_error + nat" where
  "jsonb_array_length j =
     (case j of
        JArray xs \<Rightarrow> Inr (length xs)
      | JObject _ \<Rightarrow> Inl (InvalidParameterValue ''cannot get array length of a non-array'')
      | _ \<Rightarrow> Inl (InvalidParameterValue ''cannot get array length of a scalar''))"

text \<open>
  Storing into \<^verbatim>\<open>NUMERIC(3, 2)\<close> rounds to two decimal places, ties away from zero,
  and fails when the rounded value needs more than one digit before the point.
\<close>

definition round_half_away :: "rat \<Rightarrow> int" where
  "round_half_away q = (if 0 \<le> q then \<lfloor>q + 1 / 2\<rfloor> else - \<lfloor>- q + 1 / 2\<rfloor>)"

definition numeric_3_2 :: "rat \<Rightarrow> db_error + rat" where
  "numeric_3_2 q =
     (let h = round_half_away (q * 100)
      in if \<bar>h\<bar> \<ge> 1000 then Inl NumericValueOutOfRange else Inr (of_int h / 100))"

subsection \<open>Constraints of \<^verbatim>\<open>classifications\<close>\<close>

text \<open>
  A CHECK constraint rejects a row only when its expression is false: a NULL result
  passes. \<open>le_or_null\<close> is the comparison \<^verbatim>\<open>x <= n\<close> with that reading.
\<close>

definition le_or_null :: "nat option \<Rightarrow> nat \<Rightarrow> bool" where
  "le_or_null x n = (case x of None \<Rightarrow> True | Some k \<Rightarrow> k \<le> n)"

definition check_classification :: "ClassificationResult \<Rightarrow> db_error + unit" where
  "check_classification c =
     (if \<not> (confidence c \<ge> 0 \<and> confidence c \<le> 1) then Inl (CheckViolation ''chk_confidence_range'')
      else if \<not> le_or_null (array_length (secondary_categories c)) 3
        then Inl (CheckViolation ''chk_secondary_categories'')
      else (case jsonb_array_length (action_items c) of
          Inl e \<Rightarrow> Inl e
        | Inr n \<Rightarrow>
            if \<not> n \<le> 10 then Inl (CheckViolation ''chk_action_items'')
            else if \<not> le_or_null (text_length (rationale c)) 200
              then Inl (CheckViolation ''chk_rationale_length'')
            else Inr ()))"

subsection \<open>Statements\<close>

text \<open>
  What a caller gives to insert an \<^verbatim>\<open>Email\<close>. The columns with a default may be
  left out (\<open>None\<close>): \<^verbatim>\<open>sender_domain\<close> then takes its server default
  \<^verbatim>\<open>split_part(sender, '@', 2)\<close>, \<^verbatim>\<open>classification_status\<close> is
  \<^verbatim>\<open>"pending"\<close>, and the timestamps are the time of the statement.
\<close>

record Email_values =
  given_id :: uuid
  given_message_id :: string
  given_sender :: string
  given_sender_domain :: "string option"
  given_subject :: string
  given_received_timestamp :: "timestamp option"
  given_body_hash :: string
  given_body_encrypted :: "string option"
  given_classification_status :: "EmailStatus option"

definition email_row :: "timestamp \<Rightarrow> Email_values \<Rightarrow> db_error + Email" where
  "email_row now v =
     (case (case given_sender_domain v of
              Some d \<Rightarrow> Inr d
            | None \<Rightarrow> split_part (given_sender v) CHR ''@'' 2) of
        Inl e \<Rightarrow> Inl e
      | Inr d \<Rightarrow> Inr \<lparr>
          email_pk = given_id v,
          message_id = given_message_id v,
          sender = given_sender v,
          sender_domain = d,
          subject = given_subject v,
          received_timestamp = (case given_received_timestamp v of Some t \<Rightarrow> t | None \<Rightarrow> now),
          body_hash = given_body_hash v,
          body_encrypted = given_body_encrypted v,
          classification_status =
            (case given_classification_status v of Some s \<Rightarrow> s | None \<Rightarrow> PENDING),
          email_created_at = now,
          updated_at = now\<rparr>)"

text \<open>
  The unique indexes of \<^verbatim>\<open>emails\<close>: the primary key and \<^verbatim>\<open>message_id\<close>
  (\<^verbatim>\<open>unique=True\<close>). \<open>others\<close> are the rows the new row is compared with.
\<close>

definition email_unique :: "Email list \<Rightarrow> Email \<Rightarrow> db_error + unit" where
  "email_unique others e =
     (if email_pk e \<in> set (map email_pk others) then Inl (UniqueViolation ''emails_pkey'')
      else if message_id e \<in> set (map message_id others)
        then Inl (UniqueViolation ''emails_message_id_key'')
      else Inr ())"

definition insert_email :: "database \<Rightarrow> timestamp \<Rightarrow> Email_values \<Rightarrow> db_error + database" where
  "insert_email db now v =
     (case email_row now v of
        Inl e \<Rightarrow> Inl e
      | Inr row \<Rightarrow>
          (case email_unique (emails db) row of
             Inl e \<Rightarrow> Inl e
           | Inr _ \<Rightarrow> Inr (db\<lparr>emails := emails db @ [row]\<rparr>)))"

text \<open>
  An UPDATE of one \<^verbatim>\<open>emails\<close> row, found by primary key; \<open>f\<close> is its SET clause.
  \<^verbatim>\<open>updated_at\<close> has \<^verbatim>\<open>onupdate=func.now()\<close>. The foreign keys that point at
  \<^verbatim>\<open>emails.id\<close> have no ON UPDATE action, so a referenced key cannot change.
\<close>

definition update_email ::
  "database \<Rightarrow> timestamp \<Rightarrow> uuid \<Rightarrow> (Email \<Rightarrow> Email) \<Rightarrow> db_error + database" where
  "update_email db now k f =
     (case filter (\<lambda>e. email_pk e = k) (emails db) of
        [] \<Rightarrow> Inl NoSuchRow
      | old # _ \<Rightarrow>
          (let new = (f old)\<lparr>updated_at := now\<rparr>;
               others = filter (\<lambda>e. email_pk e \<noteq> k) (emails db)
           in case email_unique others new of
                Inl e \<Rightarrow> Inl e
              | Inr _ \<Rightarrow>
                  if email_pk new \<noteq> k \<and>
                     (k \<in> set (map email_id (classifications db)) \<or>
                      k \<in> set (map feedback_email_id (feedback db)))
                  then Inl (ForeignKeyViolation ''emails.id'')
                  else Inr (db\<lparr>emails :=
                         map (\<lambda>e. if email_pk e = k then new else e) (emails db)\<rparr>)))"

text \<open>A DELETE of one \<^verbatim>\<open>emails\<close> row; both foreign keys are ON DELETE CASCADE.\<close>

definition delete_email :: "database \<Rightarrow> uuid \<Rightarrow> db_error + database" where
  "delete_email db k =
     Inr (db\<lparr>emails := filter (\<lambda>e. email_pk e \<noteq> k) (emails db),
             classifications := filter (\<lambda>c. email_id c \<noteq> k) (classifications db),
             feedback := filter (\<lambda>f. feedback_email_id f \<noteq> k) (feedback db)\<rparr>)"

text \<open>
  The unique indexes of \<^verbatim>\<open>classifications\<close>: the primary key and \<^verbatim>\<open>email_id\<close>
  (\<^verbatim>\<open>unique=True\<close>); and its foreign key to \<^verbatim>\<open>emails.id\<close>.
\<close>

definition classification_unique ::
  "ClassificationResult list \<Rightarrow> ClassificationResult \<Rightarrow> db_error + unit" where
  "classification_unique others c =
     (if classification_pk c \<in> set (map classification_pk others)
        then Inl (UniqueViolation ''classifications_pkey'')
      else if email_id c \<in> set (map email_id others)
        then Inl (UniqueViolation ''classifications_email_id_key'')
      else Inr ())"

definition store_classification ::
  "database \<Rightarrow> ClassificationResult list \<Rightarrow> ClassificationResult
     \<Rightarrow> db_error + ClassificationResult" where
  "store_classification db others c =
     (case numeric_3_2 (confidence c) of
        Inl e \<Rightarrow> Inl e
      | Inr q \<Rightarrow>
          (let row = c\<lparr>confidence := q\<rparr>
           in case check_classification row of
                Inl e \<Rightarrow> Inl e
              | Inr _ \<Rightarrow>
                  (case classification_unique others row of
                     Inl e \<Rightarrow> Inl e
                   | Inr _ \<Rightarrow>
                       if email_id row \<in> set (map email_pk (emails db)) then Inr row
                       else Inl (ForeignKeyViolation ''classifications_email_id_fkey''))))"

definition insert_classification ::
  "database \<Rightarrow> ClassificationResult \<Rightarrow> db_error + database" where
  "insert_classification db c =
     (case store_classification db (classifications db) c of
        Inl e \<Rightarrow> Inl e
      | Inr row \<Rightarrow> Inr (db\<lparr>classifications := classifications db @ [row]\<rparr>))"

definition update_classification ::
  "database \<Rightarrow> uuid \<Rightarrow> (ClassificationResult \<Rightarrow> ClassificationResult)
     \<Rightarrow> db_error + database" where
  "update_classification db k f =
     (case filter (\<lambda>c. classification_pk c = k) (classifications db) of
        [] \<Rightarrow> Inl NoSuchRow
      | old # _ \<Rightarrow>
          (case store_classification db
                  (filter (\<lambda>c. classification_pk c \<noteq> k) (classifications db)) (f old) of
             Inl e \<Rightarrow> Inl e
           | Inr row \<Rightarrow>
               Inr (db\<lparr>classifications :=
                      map (\<lambda>c. if classification_pk c = k then row else c)
                        (classifications db)\<rparr>)))"

definition delete_classification :: "database \<Rightarrow> uuid \<Rightarrow> db_error + database" where
  "delete_classification db k =
     Inr (db\<lparr>classifications := filter (\<lambda>c. classification_pk c \<noteq> k) (classifications db)\<rparr>)"

text \<open>
  A statement either commits its new tables or fails and leaves the tables as they were.
\<close>

datatype statement =
    InsertEmail timestamp Email_values
  | UpdateEmail timestamp uuid "Email \<Rightarrow> Email"
  | DeleteEmail uuid
  | InsertClassification ClassificationResult
  | UpdateClassification uuid "ClassificationResult \<Rightarrow> ClassificationResult"
  | DeleteClassification uuid

fun run_statement :: "database \<Rightarrow> statement \<Rightarrow> db_error + database" where
  "run_statement db (InsertEmail now v) = insert_email db now v"
| "run_statement db (UpdateEmail now k f) = update_email db now k f"
| "run_statement db (DeleteEmail k) = delete_email db k"
| "run_statement db (InsertClassification c) = insert_classification db c"
| "run_statement db (UpdateClassification k f) = update_classification db k f"
| "run_statement db (DeleteClassification k) = delete_classification db k"

definition execute :: "database \<Rightarrow> statement \<Rightarrow> database" where
  "execute db st = (case run_statement db st of Inl _ \<Rightarrow> db | Inr db' \<Rightarrow> db')"

definition execute_all :: "database \<Rightarrow> statement list \<Rightarrow> database" where
  "execute_all db sts = foldl execute db sts"

subsection \<open>The limits of a stored classification, and an example database\<close>


definition keys_ok :: "database \<Rightarrow> bool" where
  "keys_ok db = (distinct (map email_pk (emails db)) \<and> distinct (map message_id (emails db)))"

definition example_email :: Email_values where
  "example_email =
     \<lparr>given_id = 1, given_message_id = ''msg-1'', given_sender = ''a@b.com'',
      given_sender_domain = None, given_subject = ''Exam schedule'',
      given_received_timestamp = None, given_body_hash = ''0a1b'',
      given_body_encrypted = None, given_classification_status = None\<rparr>"

definition example_classification :: ClassificationResult where
  "example_classification =
     \<lparr>classification_pk = 10, email_id = 1, primary_category = ''academic.exams'',
      secondary_categories = [''action.deadline_soon''], priority = NORMAL,
      deadline_utc = None, deadline_confidence = NONE, confidence = 85 / 100,
      rationale = Some ''Exam dates'', detected_entities = JObject [],
      sentiment = NEUTRAL, action_items = JArray [JString ''Revise''],
      thread_context = JObject [], rag_context_used = [''chunk1''],
      suggested_folder = None, schema_version = ''v2'',
      processed_timestamp = 0, classification_created_at = 0\<rparr>"

definition example_database :: database where
  "example_database =
     execute_all empty_database
       [InsertEmail 0 example_email, InsertClassification example_classification]"

section \<open>The idempotency key of \<^verbatim>\<open>tests/integration/test_idempotency.py\<close>\<close>

text \<open>
  \<^verbatim>\<open>generate_idempotency_key\<close> formats \<^verbatim>\<open>f"{message_id}:{schema_version}"\<close>,
  encodes the text and returns \<^verbatim>\<open>hashlib.sha256(...).hexdigest()\<close>. SHA-256 is
  embedded as FIPS 180-4 defines it, over 32-bit words. A string stands for its UTF-8
  bytes here, one \<open>char\<close> per byte, so \<^verbatim>\<open>encode\<close> reads the bytes off. The
  arguments \<^verbatim>\<open>message_id\<close> and \<^verbatim>\<open>schema_version\<close> are written \<open>m\<close> and \<open>v\<close>.
\<close>

type_synonym w32 = "32 word"

definition rotr :: "nat \<Rightarrow> w32 \<Rightarrow> w32" where
  "rotr n x = drop_bit n x OR push_bit (32 - n) x"

definition ch :: "w32 \<Rightarrow> w32 \<Rightarrow> w32 \<Rightarrow> w32" where
  "ch x y z = (x AND y) XOR (NOT x AND z)"

definition maj :: "w32 \<Rightarrow> w32 \<Rightarrow> w32 \<Rightarrow> w32" where
  "maj x y z = (x AND y) XOR (x AND z) XOR (y AND z)"

definition big_sigma0 :: "w32 \<Rightarrow> w32" where
  "big_sigma0 x = rotr 2 x XOR rotr 13 x XOR rotr 22 x"

definition big_sigma1 :: "w32 \<Rightarrow> w32" where
  "big_sigma1 x = rotr 6 x XOR rotr 11 x XOR rotr 25 x"

definition small_sigma0 :: "w32 \<Rightarrow> w32" where
  "small_sigma0 x = rotr 7 x XOR rotr 18 x XOR drop_bit 3 x"

definition small_sigma1 :: "w32 \<Rightarrow> w32" where
  "small_sigma1 x = rotr 17 x XOR rotr 19 x XOR drop_bit 10 x"

text \<open>
  The round constants and the initial hash value of FIPS 180-4, sections 4.2.2 and 5.3.3,
  in decimal: the first is \<^verbatim>\<open>0x428a2f98\<close>, the initial hash value starts with
  \<^verbatim>\<open>0x6a09e667\<close>.
\<close>

definition sha256_k :: "w32 list" where
  "sha256_k = [
    1116352408, 1899447441, 3049323471, 3921009573, 961987163, 1508970993,
    2453635748, 2870763221, 3624381080, 310598401, 607225278, 1426881987,
    1925078388, 2162078206, 2614888103, 3248222580, 3835390401, 4022224774,
    264347078, 604807628, 770255983, 1249150122, 1555081692, 1996064986,
    2554220882, 2821834349, 2952996808, 3210313671, 3336571891, 3584528711,
    113926993, 338241895, 666307205, 773529912, 1294757372, 1396182291,
    1695183700, 1986661051, 2177026350, 2456956037, 2730485921, 2820302411,
    3259730800, 3345764771, 3516065817, 3600352804, 4094571909, 275423344,
    430227734, 506948616, 659060556, 883997877, 958139571, 1322822218,
    1537002063, 1747873779, 1955562222, 2024104815, 2227730452, 2361852424,
    2428436474, 2756734187, 3204031479, 3329325298]"

type_synonym sha_state = "w32 \<times> w32 \<times> w32 \<times> w32 \<times> w32 \<times> w32 \<times> w32 \<times> w32"

definition sha256_h0 :: sha_state where
  "sha256_h0 = (1779033703, 3144134277, 1013904242, 2773480762,
                1359893119, 2600822924, 528734635, 1541459225)"

text \<open>The \<open>n\<close> low bytes of a number, most significant first.\<close>

fun be_bytes :: "nat \<Rightarrow> nat \<Rightarrow> nat list" where
  "be_bytes 0 x = []"
| "be_bytes (Suc n) x = be_bytes n (x div 256) @ [x mod 256]"

text \<open>
  Padding: one byte \<open>0x80\<close>, zero bytes up to 56 modulo 64, then the length of the
  message in bits as eight bytes.
\<close>

definition sha256_pad :: "nat list \<Rightarrow> nat list" where
  "sha256_pad bs =
     bs @ [128] @ replicate ((119 - length bs mod 64) mod 64) 0 @ be_bytes 8 (8 * length bs)"

definition be_word :: "nat list \<Rightarrow> w32" where
  "be_word bs = foldl (\<lambda>a b. push_bit 8 a OR of_nat b) 0 bs"

fun chunks :: "nat \<Rightarrow> nat \<Rightarrow> 'a list \<Rightarrow> 'a list list" where
  "chunks 0 n xs = []"
| "chunks (Suc k) n xs = take n xs # chunks k n (drop n xs)"

text \<open>
  The message schedule: \<open>w\<close> is the window of the last sixteen words, oldest first, and
  each new word is computed from the words 2, 7, 15 and 16 places back.
\<close>

fun schedule :: "nat \<Rightarrow> w32 list \<Rightarrow> w32 list" where
  "schedule 0 w = []"
| "schedule (Suc n) w =
     (let x = small_sigma1 (w ! 14) + w ! 9 + small_sigma0 (w ! 1) + w ! 0
      in x # schedule n (tl w @ [x]))"

definition sha_round :: "sha_state \<Rightarrow> (w32 \<times> w32) \<Rightarrow> sha_state" where
  "sha_round v kw =
     (case v of (a, b, c, d, e, f, g, h) \<Rightarrow>
        let t1 = h + big_sigma1 e + ch e f g + fst kw + snd kw;
            t2 = big_sigma0 a + maj a b c
        in (t1 + t2, a, b, c, d + t1, e, f, g))"

definition sha_add :: "sha_state \<Rightarrow> sha_state \<Rightarrow> sha_state" where
  "sha_add u v =
     (case u of (a, b, c, d, e, f, g, h) \<Rightarrow>
      case v of (a', b', c', d', e', f', g', h') \<Rightarrow>
        (a + a', b + b', c + c', d + d', e + e', f + f', g + g', h + h'))"

definition sha_words :: "sha_state \<Rightarrow> w32 list" where
  "sha_words v = (case v of (a, b, c, d, e, f, g, h) \<Rightarrow> [a, b, c, d, e, f, g, h])"

definition sha_block :: "sha_state \<Rightarrow> nat list \<Rightarrow> sha_state" where
  "sha_block hs blk =
     (let w16 = map be_word (chunks 16 4 blk);
          w = w16 @ schedule 48 w16
      in sha_add hs (foldl sha_round hs (zip sha256_k w)))"

definition hex_digit :: "nat \<Rightarrow> char" where
  "hex_digit n = ''0123456789abcdef'' ! n"

definition hex_word :: "w32 \<Rightarrow> string" where
  "hex_word w = map (\<lambda>i. hex_digit (unat (drop_bit (28 - 4 * i) w AND 15))) [0..<8]"

definition sha256_hexdigest :: "nat list \<Rightarrow> string" where
  "sha256_hexdigest bs =
     (let p = sha256_pad bs;
          hs = foldl sha_block sha256_h0 (chunks (length p div 64) 64 p)
      in concat (map hex_word (sha_words hs)))"

definition encode :: "string \<Rightarrow> nat list" where
  "encode s = map of_char s"

definition combined :: "string \<Rightarrow> string \<Rightarrow> string" where
  "combined m v = m @ '':'' @ v"

definition generate_idempotency_key :: "string \<Rightarrow> string \<Rightarrow> string" where
  "generate_idempotency_key m v = sha256_hexdigest (encode (combined m v))"

section \<open>The classification workflow\<close>

text \<open>
  The tests patch \<^verbatim>\<open>src.services.workflow_orchestrator\<close>,
  \<^verbatim>\<open>src.services.quarantine_manager\<close> and \<^verbatim>\<open>src.services.feedback_processor\<close>
  with mocks; the modules themselves are not in the source tree. This section models
  them from the specification, on the status enumeration and the key function of the
  source. Real time is left out: a cool-down that has elapsed is an event, and the
  delay before a retry and the expiry of old failures from a breaker's window are not
  modelled. The workers of one cycle are taken one after the other.
\<close>

subsection \<open>Retry policy\<close>

text \<open>
  Modelled from the spec: the tagged error type of the retry policy engine (4.2, 5, 9),
  which is missing from the source. The first five errors are the transient ones
  (connectivity, timeout, rate limit, transient storage error, cancelled call), the
  others the permanent ones.
\<close>

datatype dependency_error =
    ConnectionFailure
  | Timeout
  | RateLimited
  | TransientStorageError
  | Cancelled
  | OutOfRangeConfidence
  | MalformedCategory
  | SchemaVersionMismatch
  | TooManySecondaryCategories
  | TooManyActionItems
  | ConstraintViolation

datatype error_class = Transient | Permanent

text \<open>Modelled from the spec: \<^verbatim>\<open>classify_error\<close> of the retry policy engine (4.2).\<close>

fun classify_error :: "dependency_error \<Rightarrow> error_class" where
  "classify_error ConnectionFailure = Transient"
| "classify_error Timeout = Transient"
| "classify_error RateLimited = Transient"
| "classify_error TransientStorageError = Transient"
| "classify_error Cancelled = Transient"
| "classify_error _ = Permanent"

text \<open>
  Modelled from the spec: the configuration the core consumes (6), which no source file
  declares. The breaker's threshold and the schema version have no default in the spec.
\<close>

record config =
  max_attempts :: nat
  quarantine_threshold :: nat
  breaker_threshold :: nat
  current_schema_version :: string
  known_category :: "string \<Rightarrow> bool"

definition default_config :: "nat \<Rightarrow> string \<Rightarrow> (string \<Rightarrow> bool) \<Rightarrow> config" where
  "default_config bt v known =
     \<lparr>max_attempts = 3, quarantine_threshold = 3, breaker_threshold = bt,
      current_schema_version = v, known_category = known\<rparr>"

text \<open>
  Modelled from the spec: the structured verdict the classifier returns (3, 6), and its
  structural validation (4.2); neither the classifier nor the validation is in the source.
\<close>

record verdict =
  judged_primary_category :: string
  judged_secondary_categories :: "string list"
  judged_priority :: Priority
  judged_confidence :: rat
  judged_rationale :: string
  judged_action_items :: "string list"
  judged_schema_version :: string

definition validate :: "config \<Rightarrow> verdict \<Rightarrow> dependency_error option" where
  "validate cfg j =
     (if \<not> (0 \<le> judged_confidence j \<and> judged_confidence j \<le> 1) then Some OutOfRangeConfidence
      else if \<not> list_all (known_category cfg)
                  (judged_primary_category j # judged_secondary_categories j)
        then Some MalformedCategory
      else if judged_schema_version j \<noteq> current_schema_version cfg then Some SchemaVersionMismatch
      else if length (judged_secondary_categories j) > 3 then Some TooManySecondaryCategories
      else if length (judged_action_items j) > 10 then Some TooManyActionItems
      else if length (judged_rationale j) > 200 then Some ConstraintViolation
      else None)"

subsection \<open>Circuit breaker\<close>

datatype dependency = Classifier | ContextRetriever

datatype breaker_mode = Closed | Open | HalfOpen

text \<open>
  Modelled from the spec: the per-dependency circuit breaker (4.3), which is missing from
  the source. It opens when the failures in its window exceed the threshold; only
  transient errors are reported to it.
\<close>

record breaker =
  mode :: breaker_mode
  window_failures :: nat

definition breaker_allows :: "breaker \<Rightarrow> bool" where
  "breaker_allows b = (mode b \<noteq> Open)"

definition breaker_success :: "breaker \<Rightarrow> breaker" where
  "breaker_success b =
     (case mode b of HalfOpen \<Rightarrow> \<lparr>mode = Closed, window_failures = 0\<rparr> | _ \<Rightarrow> b)"

definition breaker_failure :: "nat \<Rightarrow> breaker \<Rightarrow> breaker" where
  "breaker_failure threshold b =
     (case mode b of
        Closed \<Rightarrow>
          if window_failures b + 1 > threshold
          then \<lparr>mode = Open, window_failures = window_failures b + 1\<rparr>
          else \<lparr>mode = Closed, window_failures = window_failures b + 1\<rparr>
      | HalfOpen \<Rightarrow> b\<lparr>mode := Open\<rparr>
      | Open \<Rightarrow> b)"

definition breaker_cooldown :: "breaker \<Rightarrow> breaker" where
  "breaker_cooldown b = (if mode b = Open then b\<lparr>mode := HalfOpen\<rparr> else b)"

subsection \<open>State of the orchestrator\<close>

text \<open>
  Modelled from the spec: a persisted result of the orchestrator (3), with the message
  identity and schema version it belongs to and the context snippets used.
\<close>

record stored_result =
  result_message :: string
  result_version :: string
  result_verdict :: verdict
  result_context :: "string list"

text \<open>
  Modelled from the spec: what the orchestrator owns (3, 9): the status of every message,
  the failure tally of every idempotency key, the persisted results, the breakers, and
  the counters it emits. \<open>calls\<close> counts the invocations of each dependency.
\<close>

record orchestrator =
  status :: "string \<Rightarrow> EmailStatus"
  tally :: "string \<Rightarrow> nat"
  results :: "stored_result list"
  breakers :: "dependency \<Rightarrow> breaker"
  calls :: "dependency \<Rightarrow> nat"
  retry_attempts :: "dependency \<Rightarrow> nat"
  fast_skips :: nat
  quarantine_count :: nat
  release_count :: nat

definition initial_orchestrator :: orchestrator where
  "initial_orchestrator =
     \<lparr>status = (\<lambda>_. PENDING), tally = (\<lambda>_. 0), results = [],
      breakers = (\<lambda>_. \<lparr>mode = Closed, window_failures = 0\<rparr>),
      calls = (\<lambda>_. 0), retry_attempts = (\<lambda>_. 0),
      fast_skips = 0, quarantine_count = 0, release_count = 0\<rparr>"

subsection \<open>Idempotency key authority\<close>

text \<open>
  Modelled from the spec: \<^verbatim>\<open>key_for\<close> and \<^verbatim>\<open>already_processed\<close> (4.1). The key is the
  digest the test helper computes; a key is processed when a persisted result has it.
\<close>

definition key_for :: "string \<Rightarrow> string \<Rightarrow> string" where
  "key_for m v = generate_idempotency_key m v"

definition result_key :: "stored_result \<Rightarrow> string" where
  "result_key r = key_for (result_message r) (result_version r)"

definition already_processed :: "orchestrator \<Rightarrow> string \<Rightarrow> bool" where
  "already_processed s k = (k \<in> set (map result_key (results s)))"

subsection \<open>Calls through the breakers\<close>

datatype retrieval_outcome = Snippets "string list" | RetrievalError dependency_error

datatype classifier_outcome = Verdict verdict | ClassifierError dependency_error

definition count_call :: "dependency \<Rightarrow> orchestrator \<Rightarrow> orchestrator" where
  "count_call d s = s\<lparr>calls := (calls s)(d := calls s d + 1)\<rparr>"

definition count_retry :: "dependency \<Rightarrow> orchestrator \<Rightarrow> orchestrator" where
  "count_retry d s = s\<lparr>retry_attempts := (retry_attempts s)(d := retry_attempts s d + 1)\<rparr>"

definition report_success :: "dependency \<Rightarrow> orchestrator \<Rightarrow> orchestrator" where
  "report_success d s = s\<lparr>breakers := (breakers s)(d := breaker_success (breakers s d))\<rparr>"

definition report_failure :: "config \<Rightarrow> dependency \<Rightarrow> orchestrator \<Rightarrow> orchestrator" where
  "report_failure cfg d s =
     s\<lparr>breakers := (breakers s)(d := breaker_failure (breaker_threshold cfg) (breakers s d))\<rparr>"

text \<open>
  Modelled from the spec: step 3 of the per-message procedure (4.6). One call to the
  retriever, through its breaker; a fast-fail or an error falls back to the empty context.
\<close>

definition retrieve_context ::
  "config \<Rightarrow> orchestrator \<Rightarrow> retrieval_outcome \<Rightarrow> string list \<times> orchestrator" where
  "retrieve_context cfg s out =
     (if \<not> breaker_allows (breakers s ContextRetriever) then ([], s)
      else (case out of
          Snippets ids \<Rightarrow> (ids, report_success ContextRetriever (count_call ContextRetriever s))
        | RetrievalError e \<Rightarrow>
            (case classify_error e of
               Transient \<Rightarrow>
                 ([], report_failure cfg ContextRetriever (count_call ContextRetriever s))
             | Permanent \<Rightarrow> ([], count_call ContextRetriever s))))"

text \<open>
  Modelled from the spec: one attempt's verdict, decided where the classifier's call
  returns (9): a returned verdict that fails validation is a permanent error.
\<close>

definition attempt :: "config \<Rightarrow> classifier_outcome \<Rightarrow> dependency_error + verdict" where
  "attempt cfg out =
     (case out of
        Verdict j \<Rightarrow> (case validate cfg j of None \<Rightarrow> Inr j | Some e \<Rightarrow> Inl e)
      | ClassifierError e \<Rightarrow> Inl e)"

text \<open>
  Modelled from the spec: step 4 of the per-message procedure (4.6, 4.2, 4.3, 7).
  \<open>budget\<close> attempts are left and \<open>i\<close> is the number of the next attempt, from 1;
  \<open>outs i\<close> is what the classifier does at attempt \<open>i\<close>. An open breaker fails fast
  without a call; a permanent error aborts; a transient error is reported to the breaker
  and retried while the budget lasts; every attempt after the first counts as a retry.
  \<open>None\<close> is an abort.
\<close>

fun classify_with_retry ::
  "config \<Rightarrow> nat \<Rightarrow> nat \<Rightarrow> (nat \<Rightarrow> classifier_outcome) \<Rightarrow> orchestrator
     \<Rightarrow> verdict option \<times> orchestrator" where
  "classify_with_retry cfg 0 i outs s = (None, s)"
| "classify_with_retry cfg (Suc budget) i outs s =
     (if \<not> breaker_allows (breakers s Classifier) then (None, s)
      else
        (let s1 = count_call Classifier (if i > 1 then count_retry Classifier s else s)
         in case attempt cfg (outs i) of
              Inr j \<Rightarrow> (Some j, report_success Classifier s1)
            | Inl e \<Rightarrow>
                (case classify_error e of
                   Permanent \<Rightarrow> (None, s1)
                 | Transient \<Rightarrow>
                     classify_with_retry cfg budget (i + 1) outs
                       (report_failure cfg Classifier s1))))"

subsection \<open>Quarantine manager\<close>

text \<open>
  Modelled from the spec: \<^verbatim>\<open>record_failure\<close> and \<^verbatim>\<open>should_quarantine\<close> of the
  quarantine manager (4.4), which is missing from the source.
\<close>

definition record_failure :: "orchestrator \<Rightarrow> string \<Rightarrow> orchestrator" where
  "record_failure s k = s\<lparr>tally := (tally s)(k := tally s k + 1)\<rparr>"

definition should_quarantine :: "config \<Rightarrow> nat \<Rightarrow> bool" where
  "should_quarantine cfg t = (t \<ge> quarantine_threshold cfg)"

definition set_status :: "string \<Rightarrow> EmailStatus \<Rightarrow> orchestrator \<Rightarrow> orchestrator" where
  "set_status m st s = s\<lparr>status := (status s)(m := st)\<rparr>"

datatype release_outcome = Released | NotQuarantined

text \<open>
  Modelled from the spec: \<^verbatim>\<open>release\<close> of the quarantine manager (4.4, 4.6), the
  transition out of \<^verbatim>\<open>quarantined\<close>. With \<open>manual_review\<close> the supplied verdict
  \<open>j\<close> is attached and the message is classified; without, it is pending again.
\<close>

definition release ::
  "config \<Rightarrow> orchestrator \<Rightarrow> string \<Rightarrow> bool \<Rightarrow> verdict \<Rightarrow> release_outcome \<times> orchestrator" where
  "release cfg s m manual_review j =
     (if status s m \<noteq> QUARANTINED then (NotQuarantined, s)
      else
        (let k = key_for m (current_schema_version cfg);
             s1 = s\<lparr>tally := (tally s)(k := 0), release_count := release_count s + 1\<rparr>
         in if manual_review
            then (Released,
                  set_status m CLASSIFIED
                    (if already_processed s1 k then s1
                     else s1\<lparr>results := results s1 @
                            [\<lparr>result_message = m, result_version = current_schema_version cfg,
                              result_verdict = j, result_context = []\<rparr>]\<rparr>))
            else (Released, set_status m PENDING s1)))"

subsection \<open>The per-message procedure and the cycle\<close>

text \<open>Modelled from the spec: step 2 (4.6), the transition pending to classifying.\<close>

definition begin_classifying :: "orchestrator \<Rightarrow> string \<Rightarrow> orchestrator" where
  "begin_classifying s m =
     (if status s m = PENDING then set_status m CLASSIFYING s else s)"

text \<open>Modelled from the spec: step 5 (4.6), persist, classified, tally reset.\<close>

definition on_success ::
  "config \<Rightarrow> orchestrator \<Rightarrow> string \<Rightarrow> verdict \<Rightarrow> string list \<Rightarrow> orchestrator" where
  "on_success cfg s m j ctx =
     set_status m CLASSIFIED
       (s\<lparr>results := results s @
            [\<lparr>result_message = m, result_version = current_schema_version cfg,
              result_verdict = j, result_context = ctx\<rparr>],
          tally := (tally s)(key_for m (current_schema_version cfg) := 0)\<rparr>)"

text \<open>Modelled from the spec: step 6 (4.6), the tally and the choice of failed or quarantined.\<close>

definition on_abort :: "config \<Rightarrow> orchestrator \<Rightarrow> string \<Rightarrow> orchestrator" where
  "on_abort cfg s m =
     (let k = key_for m (current_schema_version cfg);
          s1 = record_failure s k
      in if should_quarantine cfg (tally s1 k)
         then set_status m QUARANTINED (s1\<lparr>quarantine_count := quarantine_count s1 + 1\<rparr>)
         else set_status m FAILED s1)"

text \<open>
  Modelled from the spec: the classification stage of one message, the stages after the
  idempotency check and before the outcome is recorded (4.6, steps 2 to 4).
\<close>

definition classify_stage ::
  "config \<Rightarrow> orchestrator \<Rightarrow> string \<Rightarrow> retrieval_outcome \<Rightarrow> (nat \<Rightarrow> classifier_outcome)
     \<Rightarrow> string list \<times> verdict option \<times> orchestrator" where
  "classify_stage cfg s m r_out c_outs =
     (case retrieve_context cfg (begin_classifying s m) r_out of
        (ctx, s2) \<Rightarrow> (ctx, classify_with_retry cfg (max_attempts cfg) 1 c_outs s2))"

text \<open>Modelled from the spec: the per-message procedure of the orchestrator (4.6, steps 1 to 6).\<close>

definition process_message ::
  "config \<Rightarrow> orchestrator \<Rightarrow> string \<Rightarrow> retrieval_outcome \<Rightarrow> (nat \<Rightarrow> classifier_outcome)
     \<Rightarrow> orchestrator" where
  "process_message cfg s m r_out c_outs =
     (if already_processed s (key_for m (current_schema_version cfg))
      then s\<lparr>fast_skips := fast_skips s + 1\<rparr>
      else (case classify_stage cfg s m r_out c_outs of
          (ctx, Some j, s3) \<Rightarrow> on_success cfg s3 m j ctx
        | (ctx, None, s3) \<Rightarrow> on_abort cfg s3 m))"

text \<open>
  Modelled from the spec: the pickup of a polling cycle (4.4, 4.6). Quarantined messages
  are left out of the batch; each message of the batch is taken once.
\<close>

definition pickup :: "orchestrator \<Rightarrow> string list \<Rightarrow> string list" where
  "pickup s batch = filter (\<lambda>m. status s m \<noteq> QUARANTINED) (remdups batch)"

text \<open>
  Modelled from the spec: one polling cycle (4.6). \<open>r_outs m\<close> and \<open>c_outs m\<close> are
  what the retriever and the classifier do for message \<open>m\<close> in this cycle.
\<close>

definition run_cycle ::
  "config \<Rightarrow> orchestrator \<Rightarrow> string list \<Rightarrow> (string \<Rightarrow> retrieval_outcome)
     \<Rightarrow> (string \<Rightarrow> nat \<Rightarrow> classifier_outcome) \<Rightarrow> orchestrator" where
  "run_cycle cfg s batch r_outs c_outs =
     foldl (\<lambda>s' m. process_message cfg s' m (r_outs m) (c_outs m)) s (pickup s batch)"

text \<open>
  Modelled from the spec: the events that move the state machine (4.3, 4.4, 4.6): a
  polling cycle, a manual release, and the end of a breaker's cool-down.
\<close>

datatype event =
    Cycle "string list" "string \<Rightarrow> retrieval_outcome" "string \<Rightarrow> nat \<Rightarrow> classifier_outcome"
  | Release string bool verdict
  | CooldownElapsed dependency

fun apply_event :: "config \<Rightarrow> orchestrator \<Rightarrow> event \<Rightarrow> orchestrator" where
  "apply_event cfg s (Cycle batch r_outs c_outs) = run_cycle cfg s batch r_outs c_outs"
| "apply_event cfg s (Release m manual_review j) = snd (release cfg s m manual_review j)"
| "apply_event cfg s (CooldownElapsed d) =
     s\<lparr>breakers := (breakers s)(d := breaker_cooldown (breakers s d))\<rparr>"

definition run_events :: "config \<Rightarrow> orchestrator \<Rightarrow> event list \<Rightarrow> orchestrator" where
  "run_events cfg s evs = foldl (apply_event cfg) s evs"

fun releases :: "string \<Rightarrow> event \<Rightarrow> bool" where
  "releases m (Release m' _ _) = (m' = m)"
| "releases m _ = False"

text \<open>The order of the states: pending, then classifying, then the three outcomes.\<close>

fun stage :: "EmailStatus \<Rightarrow> nat" where
  "stage PENDING = 0"
| "stage CLASSIFYING = 1"
| "stage _ = 2"

text \<open>The persisted results of one message identity and schema version.\<close>

definition results_for :: "orchestrator \<Rightarrow> string \<Rightarrow> string \<Rightarrow> stored_result list" where
  "results_for s m v = filter (\<lambda>r. result_message r = m \<and> result_version r = v) (results s)"

subsection \<open>Example runs\<close>

text \<open>
  The configuration of the examples: the defaults of the spec (three attempts, quarantine
  at three failures), a breaker that opens above ten failures, schema version \<^verbatim>\<open>v2\<close>
  and every category known.
\<close>

definition example_config :: config where
  "example_config = default_config 10 ''v2'' (\<lambda>_. True)"

definition good_verdict :: verdict where
  "good_verdict =
     \<lparr>judged_primary_category = ''admin.general'', judged_secondary_categories = [],
      judged_priority = NORMAL, judged_confidence = 7 / 10,
      judged_rationale = ''General notice'', judged_action_items = [],
      judged_schema_version = ''v2''\<rparr>"

text \<open>The scenario of the spec: a confidence of 1.5.\<close>

definition bad_verdict :: verdict where
  "bad_verdict = good_verdict\<lparr>judged_confidence := 3 / 2\<rparr>"

definition no_snippets :: "string \<Rightarrow> retrieval_outcome" where
  "no_snippets m = Snippets []"

definition timeouts :: "string \<Rightarrow> nat \<Rightarrow> classifier_outcome" where
  "timeouts m i = ClassifierError Timeout"

definition out_of_range :: "string \<Rightarrow> nat \<Rightarrow> classifier_outcome" where
  "out_of_range m i = Verdict bad_verdict"

definition third_time_lucky :: "string \<Rightarrow> nat \<Rightarrow> classifier_outcome" where
  "third_time_lucky m i = (if i < 3 then ClassifierError Timeout else Verdict good_verdict)"

text \<open>The state after \<open>n\<close> polling cycles that see message \<open>m\<close> with the classifier \<open>c\<close>.\<close>

definition after_cycles ::
  "config \<Rightarrow> string \<Rightarrow> (string \<Rightarrow> nat \<Rightarrow> classifier_outcome) \<Rightarrow> nat \<Rightarrow> orchestrator" where
  "after_cycles cfg m c n =
     run_events cfg initial_orchestrator (replicate n (Cycle [m] no_snippets c))"

section \<open>The feedback incorporation loop\<close>

text \<open>
  Modelled from the spec: a context entry derived from a correction (4.5); the feedback
  processor is missing from the source. The records are the \<^verbatim>\<open>UserFeedback\<close> rows
  of the schema.
\<close>

record context_entry =
  entry_feedback :: uuid
  entry_from_category :: string
  entry_to_category :: string

definition derive_entry :: "UserFeedback \<Rightarrow> context_entry" where
  "derive_entry r =
     \<lparr>entry_feedback = feedback_pk r, entry_from_category = original_category r,
      entry_to_category = corrected_category r\<rparr>"

text \<open>Modelled from the spec: the state of the loop (4.5): the records and the context store.\<close>

record feedback_loop =
  records :: "UserFeedback list"
  context_store :: "context_entry list"

definition empty_loop :: feedback_loop where
  "empty_loop = \<lparr>records = [], context_store = []\<rparr>"

text \<open>
  Modelled from the spec: submission of a correction (3). The record is created with
  \<open>incorporated\<close> false, the column's default in the schema; an identifier that is
  already present is refused.
\<close>

definition submit :: "feedback_loop \<Rightarrow> UserFeedback \<Rightarrow> feedback_loop" where
  "submit fl r =
     (if feedback_pk r \<in> set (map feedback_pk (records fl)) then fl
      else fl\<lparr>records := records fl @ [r\<lparr>incorporated := False\<rparr>]\<rparr>)"

text \<open>Modelled from the spec: \<^verbatim>\<open>pending\<close> of the feedback loop (4.5).\<close>

definition pending :: "feedback_loop \<Rightarrow> UserFeedback list" where
  "pending fl = filter (\<lambda>r. \<not> incorporated r) (records fl)"

datatype incorporate_outcome = Incorporated | Skipped | WriteFailed | UnknownRecord

text \<open>
  Modelled from the spec: \<^verbatim>\<open>incorporate\<close> of the feedback loop (4.5). \<open>k\<close> names
  the record, whose flag is read from the store; \<open>write_ok\<close> tells whether the write to
  the context store succeeds. The entry and the flag are committed together.
\<close>

definition incorporate ::
  "feedback_loop \<Rightarrow> uuid \<Rightarrow> bool \<Rightarrow> incorporate_outcome \<times> feedback_loop" where
  "incorporate fl k write_ok =
     (case find (\<lambda>r. feedback_pk r = k) (records fl) of
        None \<Rightarrow> (UnknownRecord, fl)
      | Some r \<Rightarrow>
          if incorporated r then (Skipped, fl)
          else if \<not> write_ok then (WriteFailed, fl)
          else (Incorporated,
                fl\<lparr>context_store := context_store fl @ [derive_entry r],
                   records := map (\<lambda>x. if feedback_pk x = k then x\<lparr>incorporated := True\<rparr> else x)
                                (records fl)\<rparr>))"

text \<open>
  Modelled from the spec: one drain of the loop (4.5): every pending record is
  incorporated in turn; \<open>write_ok k\<close> is the fate of the write for record \<open>k\<close>.
\<close>

definition drain :: "feedback_loop \<Rightarrow> (uuid \<Rightarrow> bool) \<Rightarrow> feedback_loop" where
  "drain fl write_ok =
     foldl (\<lambda>fl' r. snd (incorporate fl' (feedback_pk r) (write_ok (feedback_pk r)))) fl (pending fl)"

datatype loop_event = Submit UserFeedback | Incorporate uuid bool | Drain "uuid \<Rightarrow> bool"

fun loop_step :: "feedback_loop \<Rightarrow> loop_event \<Rightarrow> feedback_loop" where
  "loop_step fl (Submit r) = submit fl r"
| "loop_step fl (Incorporate k write_ok) = snd (incorporate fl k write_ok)"
| "loop_step fl (Drain write_ok) = drain fl write_ok"

definition run_loop :: "feedback_loop \<Rightarrow> loop_event list \<Rightarrow> feedback_loop" where
  "run_loop fl evs = foldl loop_step fl evs"

definition flag :: "feedback_loop \<Rightarrow> uuid \<Rightarrow> bool option" where
  "flag fl k = map_option incorporated (find (\<lambda>r. feedback_pk r = k) (records fl))"

definition entries_of :: "feedback_loop \<Rightarrow> uuid \<Rightarrow> context_entry list" where
  "entries_of fl k = filter (\<lambda>e. entry_feedback e = k) (context_store fl)"

section \<open>Properties of the schema\<close>

subsection \<open>\<^verbatim>\<open>split_part\<close>\<close>

lemma split_fields_nonempty: "split_fields d s \<noteq> []"
  by (induction s) (auto split: list.splits)

lemma split_fields_no_delimiter: "d \<notin> set s \<Longrightarrow> split_fields d s = [s]"
  by (induction s) auto

lemma split_fields_hd: "hd (split_fields d s) = takeWhile (\<lambda>c. c \<noteq> d) s"
  by (induction s) (auto split: list.splits simp: split_fields_nonempty)

lemma split_fields_first_delimiter: "d \<notin> set a \<Longrightarrow> split_fields d (a @ d # b) = a # split_fields d b"
  by (induction a) auto

lemma split_part_second:
  "split_part s d 2 = Inr (if d \<in> set s then takeWhile (\<lambda>c. c \<noteq> d) (tl (dropWhile (\<lambda>c. c \<noteq> d) s)) else [])"
proof (cases "d \<in> set s")
  case False
  then show ?thesis by (simp add: split_part_def split_fields_no_delimiter)
next
  case True
  then obtain a b where s: "s = a @ d # b" and a: "d \<notin> set a"
    by (meson split_list_first)
  have dw: "dropWhile (\<lambda>c. c \<noteq> d) s = d # b"
    using a by (auto simp: s dropWhile_append3)
  obtain f fs where f: "split_fields d b = f # fs"
    using split_fields_nonempty [of d b] by (cases "split_fields d b") auto
  have f_eq: "f = takeWhile (\<lambda>c. c \<noteq> d) b"
    using split_fields_hd [of d b] f by simp
  have "split_part s d 2 = Inr f"
    using a by (simp add: split_part_def s split_fields_first_delimiter f)
  then show ?thesis
    using True dw f_eq by simp
qed



subsection \<open>Unique keys of \<^verbatim>\<open>emails\<close>\<close>

lemma replace_row_pk:
  "distinct (map email_pk xs) \<Longrightarrow> email_pk new \<notin> set (map email_pk (filter (\<lambda>e. email_pk e \<noteq> k) xs))
   \<Longrightarrow> distinct (map email_pk (map (\<lambda>e. if email_pk e = k then new else e) xs))"
proof (induction xs)
  case Nil
  then show ?case by simp
next
  case (Cons x xs)
  show ?case
  proof (cases "email_pk x = k")
    case True
    then have "\<forall>e\<in>set xs. email_pk e \<noteq> k" using Cons.prems(1) by (auto simp: image_iff)
    then have same: "map (\<lambda>e. if email_pk e = k then new else e) xs = xs"
      and filt: "filter (\<lambda>e. email_pk e \<noteq> k) xs = xs"
      by (simp_all add: map_idI)
    show ?thesis using Cons.prems True by (simp add: same filt)
  next
    case False
    have ih: "distinct (map email_pk (map (\<lambda>e. if email_pk e = k then new else e) xs))"
      using Cons by (auto split: if_splits)
    have "email_pk x \<noteq> email_pk new" using Cons.prems(2) False by auto
    moreover have "email_pk x \<notin> email_pk ` set xs" using Cons.prems(1) by auto
    ultimately have "email_pk x \<notin> set (map email_pk (map (\<lambda>e. if email_pk e = k then new else e) xs))"
      by (auto split: if_splits)
    then show ?thesis using ih False by simp
  qed
qed

lemma replace_row_message_id:
  "distinct (map email_pk xs) \<Longrightarrow> distinct (map message_id xs)
   \<Longrightarrow> message_id new \<notin> set (map message_id (filter (\<lambda>e. email_pk e \<noteq> k) xs))
   \<Longrightarrow> distinct (map message_id (map (\<lambda>e. if email_pk e = k then new else e) xs))"
proof (induction xs)
  case Nil
  then show ?case by simp
next
  case (Cons x xs)
  show ?case
  proof (cases "email_pk x = k")
    case True
    then have "\<forall>e\<in>set xs. email_pk e \<noteq> k" using Cons.prems(1) by (auto simp: image_iff)
    then have same: "map (\<lambda>e. if email_pk e = k then new else e) xs = xs"
      and filt: "filter (\<lambda>e. email_pk e \<noteq> k) xs = xs"
      by (simp_all add: map_idI)
    show ?thesis using Cons.prems True by (simp add: same filt)
  next
    case False
    have ih: "distinct (map message_id (map (\<lambda>e. if email_pk e = k then new else e) xs))"
      using Cons by (auto split: if_splits)
    have "message_id x \<noteq> message_id new" using Cons.prems(3) False by auto
    moreover have "message_id x \<notin> message_id ` set xs" using Cons.prems(2) by auto
    ultimately have "message_id x \<notin> set (map message_id (map (\<lambda>e. if email_pk e = k then new else e) xs))"
      by (auto split: if_splits)
    then show ?thesis using ih False by simp
  qed
qed

lemma insert_email_keys:
  assumes "keys_ok db" and "insert_email db now v = Inr db'"
  shows "keys_ok db'"
  using assms
  by (auto simp: keys_ok_def insert_email_def email_unique_def split: sum.splits if_splits)

lemma update_email_keys:
  assumes "keys_ok db" and "update_email db now k f = Inr db'"
  shows "keys_ok db'"
proof -
  from assms(2) obtain old rest where
      new_ok: "email_unique (filter (\<lambda>e. email_pk e \<noteq> k) (emails db)) ((f old)\<lparr>updated_at := now\<rparr>) = Inr ()"
    and db': "emails db' = map (\<lambda>e. if email_pk e = k then (f old)\<lparr>updated_at := now\<rparr> else e) (emails db)"
    by (auto simp: update_email_def Let_def split: list.splits sum.splits if_splits)
  from new_ok have
      "email_pk ((f old)\<lparr>updated_at := now\<rparr>) \<notin> set (map email_pk (filter (\<lambda>e. email_pk e \<noteq> k) (emails db)))"
      "message_id ((f old)\<lparr>updated_at := now\<rparr>) \<notin> set (map message_id (filter (\<lambda>e. email_pk e \<noteq> k) (emails db)))"
    by (auto simp: email_unique_def split: if_splits)
  then show ?thesis
    using assms(1) replace_row_pk replace_row_message_id unfolding keys_ok_def db' by blast
qed

lemma execute_keys: "keys_ok db \<Longrightarrow> keys_ok (execute db st)"
proof (cases st)
  case (InsertEmail now v)
  assume "keys_ok db"
  then show ?thesis using InsertEmail insert_email_keys
    by (auto simp: execute_def split: sum.splits)
next
  case (UpdateEmail now k f)
  assume "keys_ok db"
  then show ?thesis using UpdateEmail update_email_keys
    by (auto simp: execute_def split: sum.splits)
next
  case (DeleteEmail k)
  assume "keys_ok db"
  then show ?thesis using DeleteEmail
    by (auto simp: execute_def delete_email_def keys_ok_def distinct_map_filter)
next
  case (InsertClassification c)
  assume "keys_ok db"
  then show ?thesis using InsertClassification
    by (auto simp: execute_def insert_classification_def keys_ok_def split: sum.splits)
next
  case (UpdateClassification k f)
  assume "keys_ok db"
  then show ?thesis using UpdateClassification
    by (auto simp: execute_def update_classification_def keys_ok_def split: sum.splits list.splits)
next
  case (DeleteClassification k)
  assume "keys_ok db"
  then show ?thesis using DeleteClassification
    by (auto simp: execute_def delete_classification_def keys_ok_def)
qed

lemma execute_all_keys: "keys_ok db \<Longrightarrow> keys_ok (execute_all db sts)"
  unfolding execute_all_def by (induction sts arbitrary: db) (simp_all add: execute_keys)

lemma empty_database_keys: "keys_ok empty_database"
  by (simp add: keys_ok_def empty_database_def)

lemma email_row_total: "\<exists>row. email_row now v = Inr row \<and> message_id row = given_message_id v"
  by (cases "given_sender_domain v") (auto simp: email_row_def split_part_second)

lemma insert_duplicate_message_id:
  assumes "given_message_id v \<in> set (map message_id (emails db))"
  shows "\<exists>c. insert_email db now v = Inl (UniqueViolation c)"
proof -
  obtain row where "email_row now v = Inr row" "message_id row = given_message_id v"
    using email_row_total by blast
  then show ?thesis using assms
    by (auto simp: insert_email_def email_unique_def)
qed

text \<open>
  Claim C9. In every state of the tables that statements can reach from the empty
  database, no two \<^verbatim>\<open>emails\<close> rows have the same \<^verbatim>\<open>message_id\<close>. In any
  state, inserting an Email whose \<^verbatim>\<open>message_id\<close> is that of a stored row fails with
  a uniqueness violation and leaves the tables as they were.
\<close>

theorem emails_message_id_unique:
  "distinct (map message_id (emails (execute_all empty_database sts))) \<and>
   (given_message_id v \<in> set (map message_id (emails db)) \<longrightarrow>
      (\<exists>c. run_statement db (InsertEmail now v) = Inl (UniqueViolation c)) \<and>
      execute db (InsertEmail now v) = db)"
proof -
  have "keys_ok (execute_all empty_database sts)"
    by (rule execute_all_keys [OF empty_database_keys])
  moreover have "execute db (InsertEmail now v) = db"
    if "given_message_id v \<in> set (map message_id (emails db))"
    using insert_duplicate_message_id [OF that, of now] by (auto simp: execute_def)
  ultimately show ?thesis
    using insert_duplicate_message_id [of v db now] by (auto simp: keys_ok_def)
qed

theorem emails_message_id_unique_witness:
  "given_message_id (example_email\<lparr>given_id := 2\<rparr>) \<in> set (map message_id (emails example_database)) \<and>
   distinct (map message_id (emails example_database)) \<and>
   (\<exists>c. run_statement example_database (InsertEmail 7 (example_email\<lparr>given_id := 2\<rparr>))
          = Inl (UniqueViolation c)) \<and>
   execute example_database (InsertEmail 7 (example_email\<lparr>given_id := 2\<rparr>)) = example_database"
proof -
  have h: "given_message_id (example_email\<lparr>given_id := 2\<rparr>) \<in> set (map message_id (emails example_database))"
    by code_simp
  show ?thesis
    using h emails_message_id_unique
      [of "[InsertEmail 0 example_email, InsertClassification example_classification]"
          "example_email\<lparr>given_id := 2\<rparr>" example_database 7]
    by (simp add: example_database_def)
qed

subsection \<open>Check constraints of \<^verbatim>\<open>classifications\<close>\<close>

lemma floor_half: "\<lfloor>(of_int h :: rat) + 1 / 2\<rfloor> = h"
  by (simp add: floor_eq_iff)

lemma round_half_away_of_int: "round_half_away (of_int h) = h"
proof (cases "0 \<le> h")
  case True
  then show ?thesis by (simp add: round_half_away_def floor_half)
next
  case False
  have "\<lfloor>(of_int (- h) :: rat) + 1 / 2\<rfloor> = - h" by (rule floor_half)
  then show ?thesis using False by (simp add: round_half_away_def)
qed

lemma numeric_3_2_exact:
  "\<bar>h\<bar> < 1000 \<Longrightarrow> numeric_3_2 (of_int h / 100) = Inr (of_int h / 100)"
  using round_half_away_of_int [of h] by (simp add: numeric_3_2_def)






subsection \<open>The server default of \<^verbatim>\<open>sender_domain\<close>\<close>



subsection \<open>One result per email\<close>

text \<open>
  Claim C1 says that results for two schema versions of one message may be stored side
  by side. The schema declares \<^verbatim>\<open>email_id\<close> of \<^verbatim>\<open>classifications\<close> unique by
  itself: with a \<^verbatim>\<open>v2\<close> result stored for an email, the insertion of a \<^verbatim>\<open>v3\<close>
  result for the same email is refused, and the \<^verbatim>\<open>v2\<close> row stays the only one.
\<close>

theorem second_schema_version_rejected:
  "map (\<lambda>c. (email_id c, schema_version c)) (classifications example_database) = [(1, ''v2'')] \<and>
   run_statement example_database
     (InsertClassification
        (example_classification\<lparr>classification_pk := 11, schema_version := ''v3''\<rparr>))
     = Inl (UniqueViolation ''classifications_email_id_key'') \<and>
   map (\<lambda>c. (email_id c, schema_version c))
     (classifications (execute example_database
        (InsertClassification
           (example_classification\<lparr>classification_pk := 11, schema_version := ''v3''\<rparr>))))
     = [(1, ''v2'')]"
  by code_simp

section \<open>Properties of the idempotency key\<close>












section \<open>Properties of the workflow\<close>

subsection \<open>What each stage leaves alone\<close>

lemma classify_with_retry_frame:
  "classify_with_retry cfg n i outs s = (r, s') \<Longrightarrow>
     status s' = status s \<and> tally s' = tally s \<and> results s' = results s \<and>
     fast_skips s' = fast_skips s \<and> quarantine_count s' = quarantine_count s \<and>
     release_count s' = release_count s \<and>
     breakers s' ContextRetriever = breakers s ContextRetriever \<and>
     calls s' ContextRetriever = calls s ContextRetriever \<and>
     retry_attempts s' ContextRetriever = retry_attempts s ContextRetriever"
proof (induction n arbitrary: i s)
  case 0
  then show ?case by simp
next
  case (Suc n)
  show ?case
  proof (cases "breaker_allows (breakers s Classifier)")
    case False
    then show ?thesis using Suc.prems by simp
  next
    case True
    define s1 where "s1 = count_call Classifier (if i > 1 then count_retry Classifier s else s)"
    have s1: "status s1 = status s \<and> tally s1 = tally s \<and> results s1 = results s \<and>
        fast_skips s1 = fast_skips s \<and> quarantine_count s1 = quarantine_count s \<and>
        release_count s1 = release_count s \<and>
        breakers s1 ContextRetriever = breakers s ContextRetriever \<and>
        calls s1 ContextRetriever = calls s ContextRetriever \<and>
        retry_attempts s1 ContextRetriever = retry_attempts s ContextRetriever"
      by (simp add: s1_def count_call_def count_retry_def)
    show ?thesis
    proof (cases "attempt cfg (outs i)")
      case (Inr j)
      then have "s' = report_success Classifier s1"
        using Suc.prems True by (simp add: s1_def Let_def)
      then show ?thesis using s1 by (simp add: report_success_def)
    next
      case (Inl e)
      show ?thesis
      proof (cases "classify_error e")
        case Permanent
        then have "s' = s1"
          using Suc.prems True Inl by (simp add: s1_def Let_def)
        then show ?thesis using s1 by simp
      next
        case Transient
        then have "classify_with_retry cfg n (i + 1) outs (report_failure cfg Classifier s1) = (r, s')"
          using Suc.prems True Inl by (simp add: s1_def Let_def)
        from Suc.IH [OF this] show ?thesis using s1 by (simp add: report_failure_def)
      qed
    qed
  qed
qed

lemma retrieve_context_frame:
  "retrieve_context cfg s out = (ctx, s') \<Longrightarrow>
     status s' = status s \<and> tally s' = tally s \<and> results s' = results s \<and>
     fast_skips s' = fast_skips s \<and> quarantine_count s' = quarantine_count s \<and>
     release_count s' = release_count s \<and>
     breakers s' Classifier = breakers s Classifier \<and>
     calls s' Classifier = calls s Classifier \<and>
     retry_attempts s' = retry_attempts s"
  by (auto simp: retrieve_context_def count_call_def report_success_def report_failure_def
      split: if_splits retrieval_outcome.splits error_class.splits)

lemma begin_classifying_frame:
  "tally (begin_classifying s m) = tally s \<and> results (begin_classifying s m) = results s \<and>
   fast_skips (begin_classifying s m) = fast_skips s \<and>
   quarantine_count (begin_classifying s m) = quarantine_count s \<and>
   release_count (begin_classifying s m) = release_count s \<and>
   breakers (begin_classifying s m) = breakers s \<and> calls (begin_classifying s m) = calls s \<and>
   retry_attempts (begin_classifying s m) = retry_attempts s \<and>
   (\<forall>m'. m' \<noteq> m \<longrightarrow> status (begin_classifying s m) m' = status s m')"
  by (simp add: begin_classifying_def set_status_def)

lemma classify_stage_frame:
  assumes "classify_stage cfg s m r_out c_outs = (ctx, r, s3)"
  shows "tally s3 = tally s \<and> results s3 = results s \<and>
     quarantine_count s3 = quarantine_count s \<and> release_count s3 = release_count s \<and>
     fast_skips s3 = fast_skips s \<and> status s3 = status (begin_classifying s m)"
proof -
  obtain ctx' s2 where r: "retrieve_context cfg (begin_classifying s m) r_out = (ctx', s2)"
    by (cases "retrieve_context cfg (begin_classifying s m) r_out")
  then have c: "classify_with_retry cfg (max_attempts cfg) 1 c_outs s2 = (r, s3)"
    using assms by (simp add: classify_stage_def)
  show ?thesis
    using retrieve_context_frame [OF r] classify_with_retry_frame [OF c]
      begin_classifying_frame [of s m]
    by simp
qed

subsection \<open>The outcome of one message\<close>

lemma process_message_abort:
  assumes "\<not> already_processed s (key_for m (current_schema_version cfg))"
    and "fst (snd (classify_stage cfg s m r_out c_outs)) = None"
  shows "tally (process_message cfg s m r_out c_outs) (key_for m (current_schema_version cfg))
           = tally s (key_for m (current_schema_version cfg)) + 1 \<and>
         status (process_message cfg s m r_out c_outs) m
           = (if tally s (key_for m (current_schema_version cfg)) + 1 \<ge> quarantine_threshold cfg
              then QUARANTINED else FAILED) \<and>
         results (process_message cfg s m r_out c_outs) = results s"
proof -
  obtain ctx s3 where st: "classify_stage cfg s m r_out c_outs = (ctx, None, s3)"
    using assms(2) by (cases "classify_stage cfg s m r_out c_outs") auto
  have p: "process_message cfg s m r_out c_outs = on_abort cfg s3 m"
    using assms(1) st by (simp add: process_message_def)
  show ?thesis
    using classify_stage_frame [OF st]
    by (simp add: p on_abort_def Let_def record_failure_def should_quarantine_def set_status_def)
qed

lemma process_message_success:
  assumes "\<not> already_processed s (key_for m (current_schema_version cfg))"
    and "classify_stage cfg s m r_out c_outs = (ctx, Some j, s3)"
  shows "tally (process_message cfg s m r_out c_outs) (key_for m (current_schema_version cfg)) = 0 \<and>
         status (process_message cfg s m r_out c_outs) m = CLASSIFIED \<and>
         results (process_message cfg s m r_out c_outs) = results s @
           [\<lparr>result_message = m, result_version = current_schema_version cfg,
             result_verdict = j, result_context = ctx\<rparr>]"
proof -
  have p: "process_message cfg s m r_out c_outs = on_success cfg s3 m j ctx"
    using assms by (simp add: process_message_def)
  show ?thesis
    using classify_stage_frame [OF assms(2)]
    by (simp add: p on_success_def set_status_def)
qed

lemma process_message_other:
  assumes "m' \<noteq> m"
  shows "status (process_message cfg s m r_out c_outs) m' = status s m'"
proof (cases "already_processed s (key_for m (current_schema_version cfg))")
  case True
  then show ?thesis by (simp add: process_message_def)
next
  case False
  obtain ctx r s3 where st: "classify_stage cfg s m r_out c_outs = (ctx, r, s3)"
    by (cases "classify_stage cfg s m r_out c_outs") auto
  have "status s3 m' = status s m'"
    using classify_stage_frame [OF st] begin_classifying_frame [of s m] assms by simp
  then show ?thesis
    using False st assms
    by (cases r) (simp_all add: process_message_def on_abort_def on_success_def Let_def
        record_failure_def set_status_def)
qed

lemma process_message_stage:
  "stage (status s m') \<le> stage (status (process_message cfg s m r_out c_outs) m')"
proof (cases "m' = m")
  case False
  then show ?thesis by (simp add: process_message_other)
next
  case True
  show ?thesis
  proof (cases "already_processed s (key_for m (current_schema_version cfg))")
    case True
    then show ?thesis by (simp add: process_message_def)
  next
    case False
    obtain ctx r s3 where st: "classify_stage cfg s m r_out c_outs = (ctx, r, s3)"
      by (cases "classify_stage cfg s m r_out c_outs") auto
    show ?thesis
    proof (cases r)
      case None
      then have "stage (status (process_message cfg s m r_out c_outs) m) = 2"
        using process_message_abort [OF False, of r_out c_outs] st by simp
      moreover have "stage (status s m) \<le> 2" by (cases "status s m") simp_all
      ultimately show ?thesis using \<open>m' = m\<close> by simp
    next
      case (Some j)
      then have "stage (status (process_message cfg s m r_out c_outs) m) = 2"
        using process_message_success [OF False, of r_out c_outs ctx j s3] st by simp
      moreover have "stage (status s m) \<le> 2" by (cases "status s m") simp_all
      ultimately show ?thesis using \<open>m' = m\<close> by simp
    qed
  qed
qed

subsection \<open>Cycles and events\<close>

lemma fold_process_other:
  "m \<notin> set ms \<Longrightarrow>
   status (foldl (\<lambda>s' m'. process_message cfg s' m' (r_outs m') (c_outs m')) s ms) m = status s m"
  by (induction ms arbitrary: s) (simp_all add: process_message_other)

lemma fold_process_stage:
  "stage (status s m) \<le>
   stage (status (foldl (\<lambda>s' m'. process_message cfg s' m' (r_outs m') (c_outs m')) s ms) m)"
proof (induction ms arbitrary: s)
  case Nil
  then show ?case by simp
next
  case (Cons x xs)
  have "stage (status s m) \<le> stage (status (process_message cfg s x (r_outs x) (c_outs x)) m)"
    by (rule process_message_stage)
  also have "\<dots> \<le> stage (status (foldl (\<lambda>s' m'. process_message cfg s' m' (r_outs m') (c_outs m'))
      (process_message cfg s x (r_outs x) (c_outs x)) xs) m)"
    by (rule Cons.IH)
  finally show ?case by simp
qed

lemma quarantined_not_picked: "status s m = QUARANTINED \<Longrightarrow> m \<notin> set (pickup s batch)"
  by (simp add: pickup_def)

lemma pickup_without:
  assumes "status s m = QUARANTINED"
  shows "pickup s (removeAll m batch) = pickup s batch"
  using assms
  by (auto simp: pickup_def removeAll_filter_not_eq remdups_filter intro!: filter_cong)

lemma run_cycle_quarantined:
  "status s m = QUARANTINED \<Longrightarrow> status (run_cycle cfg s batch r_outs c_outs) m = QUARANTINED"
  by (simp add: run_cycle_def fold_process_other quarantined_not_picked)

lemma run_cycle_stage:
  "stage (status s m) \<le> stage (status (run_cycle cfg s batch r_outs c_outs) m)"
  unfolding run_cycle_def by (rule fold_process_stage)

lemma release_other:
  "m' \<noteq> m \<Longrightarrow> status (snd (release cfg s m' manual_review j)) m = status s m"
  by (simp add: release_def Let_def set_status_def)

lemma release_quarantined:
  assumes "status s m = QUARANTINED"
  shows "fst (release cfg s m manual_review j) = Released \<and>
         status (snd (release cfg s m manual_review j)) m
           = (if manual_review then CLASSIFIED else PENDING) \<and>
         tally (snd (release cfg s m manual_review j)) (key_for m (current_schema_version cfg)) = 0 \<and>
         release_count (snd (release cfg s m manual_review j)) = release_count s + 1"
  using assms by (simp add: release_def Let_def set_status_def)

lemma apply_event_quarantined:
  assumes "status s m = QUARANTINED" and "\<not> releases m e"
  shows "status (apply_event cfg s e) m = QUARANTINED"
proof (cases e)
  case (Cycle batch r_outs c_outs)
  then show ?thesis using assms(1) by (simp add: run_cycle_quarantined)
next
  case (Release m' manual_review j)
  then show ?thesis using assms by (simp add: release_other)
next
  case (CooldownElapsed d)
  then show ?thesis using assms(1) by simp
qed

lemma apply_event_stage:
  assumes "\<not> releases m e"
  shows "stage (status s m) \<le> stage (status (apply_event cfg s e) m)"
proof (cases e)
  case (Cycle batch r_outs c_outs)
  then show ?thesis by (simp add: run_cycle_stage)
next
  case (Release m' manual_review j)
  then show ?thesis using assms by (simp add: release_other)
next
  case (CooldownElapsed d)
  then show ?thesis by simp
qed

lemma run_events_quarantined:
  "status s m = QUARANTINED \<Longrightarrow> \<forall>e\<in>set evs. \<not> releases m e
   \<Longrightarrow> status (run_events cfg s evs) m = QUARANTINED"
  unfolding run_events_def
  by (induction evs arbitrary: s) (simp_all add: apply_event_quarantined)

lemma run_events_stage:
  "\<forall>e\<in>set evs. \<not> releases m e
   \<Longrightarrow> stage (status s m) \<le> stage (status (run_events cfg s evs) m)"
  unfolding run_events_def
proof (induction evs arbitrary: s)
  case Nil
  then show ?case by simp
next
  case (Cons e evs)
  have "stage (status s m) \<le> stage (status (apply_event cfg s e) m)"
    using Cons.prems by (simp add: apply_event_stage)
  also have "\<dots> \<le> stage (status (foldl (apply_event cfg) (apply_event cfg s e) evs) m)"
    using Cons.prems by (intro Cons.IH) simp
  finally show ?case by simp
qed

lemma run_events_append:
  "run_events cfg s (evs1 @ evs2) = run_events cfg (run_events cfg s evs1) evs2"
  by (simp add: run_events_def)

subsection \<open>The retry loop\<close>

lemma classify_stage_eq:
  "classify_stage cfg s m r_out c_outs =
     (fst (retrieve_context cfg (begin_classifying s m) r_out),
      classify_with_retry cfg (max_attempts cfg) 1 c_outs
        (snd (retrieve_context cfg (begin_classifying s m) r_out)))"
  by (simp add: classify_stage_def split: prod.splits)

lemma no_success_aborts:
  assumes "\<And>i. isl (attempt cfg (outs i))"
  shows "fst (classify_with_retry cfg n i outs s) = None"
proof (induction n arbitrary: i s)
  case 0
  then show ?case by simp
next
  case (Suc n)
  obtain e where e: "attempt cfg (outs i) = Inl e"
    using assms [of i] by (cases "attempt cfg (outs i)") auto
  show ?case
    by (cases "classify_error e") (simp_all add: e Let_def Suc.IH)
qed

lemma transient_step:
  assumes "breaker_allows (breakers s Classifier)"
    and "attempt cfg (outs i) = Inl e" and "classify_error e = Transient"
  shows "classify_with_retry cfg (Suc n) i outs s =
           classify_with_retry cfg n (i + 1) outs
             (report_failure cfg Classifier
                (count_call Classifier (if i > 1 then count_retry Classifier s else s)))"
  using assms by (simp add: Let_def)

lemma success_step:
  assumes "breaker_allows (breakers s Classifier)" and "attempt cfg (outs i) = Inr j"
  shows "classify_with_retry cfg (Suc n) i outs s =
           (Some j, report_success Classifier
                (count_call Classifier (if i > 1 then count_retry Classifier s else s)))"
  using assms by (simp add: Let_def)

lemma permanent_step:
  assumes "breaker_allows (breakers s Classifier)"
    and "attempt cfg (outs i) = Inl e" and "classify_error e = Permanent"
  shows "classify_with_retry cfg (Suc n) i outs s =
           (None, count_call Classifier (if i > 1 then count_retry Classifier s else s))"
  using assms by (simp add: Let_def)

lemma calls_bounded:
  "calls (snd (classify_with_retry cfg n i outs s)) Classifier \<le> calls s Classifier + n"
proof (induction n arbitrary: i s)
  case 0
  then show ?case by simp
next
  case (Suc n)
  show ?case
  proof (cases "breaker_allows (breakers s Classifier)")
    case False
    then show ?thesis by simp
  next
    case True
    define s1 where "s1 = count_call Classifier (if i > 1 then count_retry Classifier s else s)"
    have c1: "calls s1 Classifier = calls s Classifier + 1"
      by (simp add: s1_def count_call_def count_retry_def)
    show ?thesis
    proof (cases "attempt cfg (outs i)")
      case (Inr j)
      have "classify_with_retry cfg (Suc n) i outs s = (Some j, report_success Classifier s1)"
        unfolding s1_def by (rule success_step [where outs = outs and i = i, OF True Inr])
      then show ?thesis using c1 by (simp add: report_success_def)
    next
      case (Inl e)
      show ?thesis
      proof (cases "classify_error e")
        case Permanent
        have "classify_with_retry cfg (Suc n) i outs s = (None, s1)"
          unfolding s1_def by (rule permanent_step [where outs = outs and i = i, OF True Inl Permanent])
        then show ?thesis using c1 by simp
      next
        case Transient
        have eq: "classify_with_retry cfg (Suc n) i outs s =
            classify_with_retry cfg n (i + 1) outs (report_failure cfg Classifier s1)"
          unfolding s1_def by (rule transient_step [where outs = outs and i = i, OF True Inl Transient])
        have "calls (snd (classify_with_retry cfg n (i + 1) outs (report_failure cfg Classifier s1)))
            Classifier \<le> calls (report_failure cfg Classifier s1) Classifier + n"
          by (rule Suc.IH)
        then show ?thesis
          using c1 unfolding eq by (simp add: report_failure_def)
      qed
    qed
  qed
qed

lemma two_transient_then_success:
  assumes "mode (breakers s Classifier) = Closed"
    and "window_failures (breakers s Classifier) + 2 \<le> breaker_threshold cfg"
    and "attempt cfg (outs 1) = Inl e1" and "classify_error e1 = Transient"
    and "attempt cfg (outs 2) = Inl e2" and "classify_error e2 = Transient"
    and "attempt cfg (outs 3) = Inr j"
  shows "fst (classify_with_retry cfg 3 1 outs s) = Some j \<and>
         retry_attempts (snd (classify_with_retry cfg 3 1 outs s)) Classifier
           = retry_attempts s Classifier + 2 \<and>
         calls (snd (classify_with_retry cfg 3 1 outs s)) Classifier = calls s Classifier + 3"
proof -
  define s1 where "s1 = report_failure cfg Classifier (count_call Classifier s)"
  define s2 where "s2 = report_failure cfg Classifier (count_call Classifier (count_retry Classifier s1))"
  define s3 where "s3 = report_success Classifier (count_call Classifier (count_retry Classifier s2))"
  have b0: "breaker_allows (breakers s Classifier)"
    using assms(1) by (simp add: breaker_allows_def)
  have b1: "mode (breakers s1 Classifier) = Closed"
      "window_failures (breakers s1 Classifier) = window_failures (breakers s Classifier) + 1"
    using assms(1,2)
    by (simp_all add: s1_def report_failure_def count_call_def breaker_failure_def)
  have b1': "breaker_allows (breakers s1 Classifier)"
    using b1(1) by (simp add: breaker_allows_def)
  have b2: "breaker_allows (breakers s2 Classifier)"
    using b1 assms(2)
    by (simp add: s2_def report_failure_def count_call_def count_retry_def breaker_failure_def
        breaker_allows_def)
  have step1: "classify_with_retry cfg (Suc 2) 1 outs s = classify_with_retry cfg 2 (1 + 1) outs s1"
    using transient_step [where outs = outs and i = 1 and n = 2, OF b0 assms(3,4)] by (simp add: s1_def)
  have step2: "classify_with_retry cfg (Suc 1) 2 outs s1 = classify_with_retry cfg 1 (2 + 1) outs s2"
    using transient_step [where outs = outs and i = 2 and n = 1, OF b1' assms(5,6)] by (simp add: s2_def)
  have step3: "classify_with_retry cfg (Suc 0) 3 outs s2 = (Some j, s3)"
    using success_step [where outs = outs and i = 3 and n = 0, OF b2 assms(7)] by (simp add: s3_def)
  have n3: "(3::nat) = Suc 2" and n2: "(2::nat) = Suc 1" and n1: "(1::nat) = Suc 0"
    and i2: "(1::nat) + 1 = 2" and i3: "(2::nat) + 1 = 3"
    by simp_all
  have "classify_with_retry cfg 3 1 outs s = classify_with_retry cfg 2 2 outs s1"
    using step1 unfolding i2 by (subst n3) simp
  also have "\<dots> = classify_with_retry cfg 1 3 outs s2"
    using step2 unfolding i3 by (subst n2) simp
  also have "\<dots> = (Some j, s3)"
    using step3 by (subst n1) simp
  finally have all: "classify_with_retry cfg 3 1 outs s = (Some j, s3)" .
  have "retry_attempts s3 Classifier = retry_attempts s Classifier + 2"
    by (simp add: s3_def s2_def s1_def report_success_def report_failure_def count_call_def
        count_retry_def)
  moreover have "calls s3 Classifier = calls s Classifier + 3"
    by (simp add: s3_def s2_def s1_def report_success_def report_failure_def count_call_def
        count_retry_def)
  ultimately show ?thesis unfolding all by simp
qed

lemma not_processed_no_results:
  assumes "\<not> already_processed s (key_for m v)"
  shows "results_for s m v = []"
proof -
  have "\<forall>r\<in>set (results s). \<not> (result_message r = m \<and> result_version r = v)"
    using assms by (auto simp: already_processed_def result_key_def)
  then show ?thesis by (simp add: results_for_def filter_empty_conv)
qed

lemma out_of_range_is_permanent:
  assumes "\<not> (0 \<le> judged_confidence j \<and> judged_confidence j \<le> 1)"
  shows "attempt cfg (Verdict j) = Inl OutOfRangeConfidence \<and>
         classify_error OutOfRangeConfidence = Permanent"
  using assms by (simp add: attempt_def validate_def)

lemma transient_only_aborts:
  assumes "\<And>k. i \<le> k \<Longrightarrow> k < i + n \<Longrightarrow> \<exists>e. attempt cfg (outs k) = Inl e \<and> classify_error e = Transient"
  shows "fst (classify_with_retry cfg n i outs s) = None"
  using assms
proof (induction n arbitrary: i s)
  case 0
  then show ?case by simp
next
  case (Suc n)
  obtain e where e: "attempt cfg (outs i) = Inl e" "classify_error e = Transient"
    using Suc.prems [of i] by auto
  have "fst (classify_with_retry cfg n (i + 1) outs s') = None" for s'
    by (rule Suc.IH) (use Suc.prems in auto)
  then show ?case by (simp add: e Let_def)
qed

subsection \<open>Permanent and transient failures of one message\<close>

lemma on_abort_frame:
  "calls (on_abort cfg s m) = calls s \<and> retry_attempts (on_abort cfg s m) = retry_attempts s \<and>
   results (on_abort cfg s m) = results s \<and> breakers (on_abort cfg s m) = breakers s"
  by (simp add: on_abort_def Let_def record_failure_def set_status_def)

lemma on_success_frame:
  "calls (on_success cfg s m j ctx) = calls s \<and>
   retry_attempts (on_success cfg s m j ctx) = retry_attempts s \<and>
   breakers (on_success cfg s m j ctx) = breakers s"
  by (simp add: on_success_def set_status_def)

lemma retrieved_frame:
  "breakers (snd (retrieve_context cfg (begin_classifying s m) r_out)) Classifier
     = breakers s Classifier \<and>
   calls (snd (retrieve_context cfg (begin_classifying s m) r_out)) Classifier
     = calls s Classifier \<and>
   retry_attempts (snd (retrieve_context cfg (begin_classifying s m) r_out)) = retry_attempts s"
  using retrieve_context_frame [of cfg "begin_classifying s m" r_out
      "fst (retrieve_context cfg (begin_classifying s m) r_out)"
      "snd (retrieve_context cfg (begin_classifying s m) r_out)"]
    begin_classifying_frame [of s m]
  by simp

lemma process_message_permanent:
  assumes np: "\<not> already_processed s (key_for m (current_schema_version cfg))"
    and allow: "breaker_allows (breakers s Classifier)"
    and budget: "0 < max_attempts cfg"
    and err: "attempt cfg (c_outs 1) = Inl e" "classify_error e = Permanent"
  shows "status (process_message cfg s m r_out c_outs) m
           = (if tally s (key_for m (current_schema_version cfg)) + 1 \<ge> quarantine_threshold cfg
              then QUARANTINED else FAILED) \<and>
         calls (process_message cfg s m r_out c_outs) Classifier = calls s Classifier + 1 \<and>
         retry_attempts (process_message cfg s m r_out c_outs) = retry_attempts s \<and>
         results (process_message cfg s m r_out c_outs) = results s \<and>
         breakers (process_message cfg s m r_out c_outs) Classifier = breakers s Classifier"
proof -
  define s2 where "s2 = snd (retrieve_context cfg (begin_classifying s m) r_out)"
  note fr = retrieved_frame [of cfg s m r_out, folded s2_def]
  obtain n where n: "max_attempts cfg = Suc n"
    using budget by (cases "max_attempts cfg") auto
  have allow2: "breaker_allows (breakers s2 Classifier)"
    using allow fr by simp
  have loop: "classify_with_retry cfg (max_attempts cfg) 1 c_outs s2 = (None, count_call Classifier s2)"
    using permanent_step [where outs = c_outs and i = 1 and n = n, OF allow2 err] n by simp
  have st: "classify_stage cfg s m r_out c_outs
      = (fst (retrieve_context cfg (begin_classifying s m) r_out), None, count_call Classifier s2)"
    unfolding classify_stage_eq s2_def [symmetric] loop by simp
  have p: "process_message cfg s m r_out c_outs = on_abort cfg (count_call Classifier s2) m"
    using np by (simp add: process_message_def st)
  have "fst (snd (classify_stage cfg s m r_out c_outs)) = None"
    by (simp add: st)
  from process_message_abort [OF np this]
  show ?thesis
    using fr by (simp add: p on_abort_frame count_call_def)
qed

lemma process_message_retried:
  assumes np: "\<not> already_processed s (key_for m (current_schema_version cfg))"
    and budget: "max_attempts cfg = 3"
    and closed: "mode (breakers s Classifier) = Closed"
      "window_failures (breakers s Classifier) + 2 \<le> breaker_threshold cfg"
    and first: "attempt cfg (c_outs 1) = Inl e1" "classify_error e1 = Transient"
    and second: "attempt cfg (c_outs 2) = Inl e2" "classify_error e2 = Transient"
    and third: "attempt cfg (c_outs 3) = Inr j"
  shows "status (process_message cfg s m r_out c_outs) m = CLASSIFIED \<and>
         retry_attempts (process_message cfg s m r_out c_outs) Classifier
           = retry_attempts s Classifier + 2 \<and>
         length (results_for (process_message cfg s m r_out c_outs) m (current_schema_version cfg)) = 1"
proof -
  define s2 where "s2 = snd (retrieve_context cfg (begin_classifying s m) r_out)"
  define ctx where "ctx = fst (retrieve_context cfg (begin_classifying s m) r_out)"
  note fr = retrieved_frame [of cfg s m r_out, folded s2_def]
  have c2: "mode (breakers s2 Classifier) = Closed"
      "window_failures (breakers s2 Classifier) + 2 \<le> breaker_threshold cfg"
    using closed fr by simp_all
  note loop = two_transient_then_success [OF c2 first second third]
  define s3 where "s3 = snd (classify_with_retry cfg 3 1 c_outs s2)"
  have st: "classify_stage cfg s m r_out c_outs = (ctx, Some j, s3)"
    using loop by (simp add: classify_stage_eq s2_def [symmetric] ctx_def budget s3_def prod_eq_iff)
  note ok = process_message_success [OF np st]
  have "results_for s m (current_schema_version cfg) = []"
    by (rule not_processed_no_results [OF np])
  then have one: "length (results_for (process_message cfg s m r_out c_outs) m
      (current_schema_version cfg)) = 1"
    using ok by (simp add: results_for_def)
  have p: "process_message cfg s m r_out c_outs = on_success cfg s3 m j ctx"
    using np by (simp add: process_message_def st)
  have "retry_attempts (process_message cfg s m r_out c_outs) Classifier
      = retry_attempts s Classifier + 2"
    using loop fr by (simp add: p on_success_frame s3_def)
  then show ?thesis using ok one by simp
qed

lemma process_message_exhausted:
  assumes np: "\<not> already_processed s (key_for m (current_schema_version cfg))"
    and all: "\<forall>i. 1 \<le> i \<and> i \<le> max_attempts cfg \<longrightarrow>
        (\<exists>e. attempt cfg (c_outs i) = Inl e \<and> classify_error e = Transient)"
  shows "status (process_message cfg s m r_out c_outs) m
           = (if tally s (key_for m (current_schema_version cfg)) + 1 \<ge> quarantine_threshold cfg
              then QUARANTINED else FAILED) \<and>
         calls (process_message cfg s m r_out c_outs) Classifier
           \<le> calls s Classifier + max_attempts cfg \<and>
         results (process_message cfg s m r_out c_outs) = results s"
proof -
  define s2 where "s2 = snd (retrieve_context cfg (begin_classifying s m) r_out)"
  note fr = retrieved_frame [of cfg s m r_out, folded s2_def]
  have none: "fst (classify_with_retry cfg (max_attempts cfg) 1 c_outs s2) = None"
    by (rule transient_only_aborts) (use all in auto)
  then have st: "fst (snd (classify_stage cfg s m r_out c_outs)) = None"
    by (simp add: classify_stage_eq s2_def [symmetric])
  have p: "process_message cfg s m r_out c_outs
      = on_abort cfg (snd (classify_with_retry cfg (max_attempts cfg) 1 c_outs s2)) m"
    using np none
    by (cases "classify_with_retry cfg (max_attempts cfg) 1 c_outs s2")
      (simp add: process_message_def classify_stage_eq s2_def [symmetric])
  have "calls (process_message cfg s m r_out c_outs) Classifier
      \<le> calls s Classifier + max_attempts cfg"
    using calls_bounded [of cfg "max_attempts cfg" 1 c_outs s2] fr
    by (simp add: p on_abort_frame)
  then show ?thesis
    using process_message_abort [OF np st] by simp
qed

subsection \<open>The example runs, evaluated\<close>

lemmas run_defs = after_cycles_def run_events_def run_cycle_def pickup_def process_message_def
  classify_stage_def retrieve_context_def begin_classifying_def set_status_def on_abort_def
  on_success_def record_failure_def should_quarantine_def already_processed_def
  initial_orchestrator_def example_config_def default_config_def no_snippets_def timeouts_def
  out_of_range_def third_time_lucky_def attempt_def validate_def good_verdict_def bad_verdict_def
  count_call_def count_retry_def report_success_def report_failure_def breaker_allows_def
  breaker_success_def breaker_failure_def breaker_cooldown_def release_def results_for_def
  Let_def numeral_3_eq_3 numeral_2_eq_2

subsection \<open>Quarantine and release\<close>

text \<open>
  Claim C4. A terminal failure of a processing attempt adds one to the message's tally;
  when the tally then reaches the quarantine threshold (3 by default) the message is
  quarantined, and failed otherwise. A quarantined message is left out of every batch, a
  cycle runs as if the message were not polled, and the message stays quarantined through
  any events that do not release it; once released it is picked up again.
\<close>

theorem quarantine_at_threshold:
  "quarantine_threshold (default_config bt v known) = 3 \<and>
   (\<not> already_processed s (key_for m (current_schema_version cfg)) \<and>
    fst (snd (classify_stage cfg s m r_out c_outs)) = None \<longrightarrow>
      tally (process_message cfg s m r_out c_outs) (key_for m (current_schema_version cfg))
        = tally s (key_for m (current_schema_version cfg)) + 1 \<and>
      status (process_message cfg s m r_out c_outs) m
        = (if tally s (key_for m (current_schema_version cfg)) + 1 \<ge> quarantine_threshold cfg
           then QUARANTINED else FAILED)) \<and>
   (status s m = QUARANTINED \<longrightarrow>
      m \<notin> set (pickup s batch) \<and>
      run_cycle cfg s batch rs cs = run_cycle cfg s (removeAll m batch) rs cs \<and>
      ((\<forall>e\<in>set evs. \<not> releases m e) \<longrightarrow> status (run_events cfg s evs) m = QUARANTINED) \<and>
      (m \<in> set batch \<longrightarrow>
         m \<in> set (pickup (apply_event cfg s (Release m manual_review j)) batch)))"
proof -
  have a: "quarantine_threshold (default_config bt v known) = 3"
    by (simp add: default_config_def)
  have b: "\<not> already_processed s (key_for m (current_schema_version cfg)) \<and>
    fst (snd (classify_stage cfg s m r_out c_outs)) = None \<longrightarrow>
      tally (process_message cfg s m r_out c_outs) (key_for m (current_schema_version cfg))
        = tally s (key_for m (current_schema_version cfg)) + 1 \<and>
      status (process_message cfg s m r_out c_outs) m
        = (if tally s (key_for m (current_schema_version cfg)) + 1 \<ge> quarantine_threshold cfg
           then QUARANTINED else FAILED)"
    using process_message_abort [of s m cfg r_out c_outs] by blast
  have c: "m \<notin> set (pickup s batch) \<and>
      run_cycle cfg s batch rs cs = run_cycle cfg s (removeAll m batch) rs cs \<and>
      ((\<forall>e\<in>set evs. \<not> releases m e) \<longrightarrow> status (run_events cfg s evs) m = QUARANTINED) \<and>
      (m \<in> set batch \<longrightarrow>
         m \<in> set (pickup (apply_event cfg s (Release m manual_review j)) batch))"
    if q: "status s m = QUARANTINED"
  proof -
    have "status (apply_event cfg s (Release m manual_review j)) m \<noteq> QUARANTINED"
      using release_quarantined [OF q, of cfg manual_review j] by simp
    then have "m \<in> set batch \<longrightarrow>
         m \<in> set (pickup (apply_event cfg s (Release m manual_review j)) batch)"
      by (simp add: pickup_def)
    then show ?thesis
      using q quarantined_not_picked [OF q] pickup_without [OF q] run_events_quarantined [OF q]
      by (simp add: run_cycle_def)
  qed
  show ?thesis using a b c by blast
qed

theorem quarantine_at_threshold_witness:
  "\<not> already_processed (after_cycles example_config ''M3'' timeouts 2)
        (key_for ''M3'' (current_schema_version example_config)) \<and>
   fst (snd (classify_stage example_config (after_cycles example_config ''M3'' timeouts 2) ''M3''
        (no_snippets ''M3'') (timeouts ''M3''))) = None \<and>
   tally (after_cycles example_config ''M3'' timeouts 2)
        (key_for ''M3'' (current_schema_version example_config)) = 2 \<and>
   status (after_cycles example_config ''M3'' timeouts 2) ''M3'' = FAILED \<and>
   status (process_message example_config (after_cycles example_config ''M3'' timeouts 2) ''M3''
        (no_snippets ''M3'') (timeouts ''M3'')) ''M3'' = QUARANTINED \<and>
   status (after_cycles example_config ''M3'' timeouts 3) ''M3'' = QUARANTINED \<and>
   ''M3'' \<notin> set (pickup (after_cycles example_config ''M3'' timeouts 3) [''M3'', ''M4'']) \<and>
   status (run_events example_config (after_cycles example_config ''M3'' timeouts 3)
        [Cycle [''M3'', ''M4''] no_snippets third_time_lucky, CooldownElapsed Classifier,
         Release ''M4'' True good_verdict]) ''M3'' = QUARANTINED \<and>
   ''M3'' \<in> set (pickup (apply_event example_config (after_cycles example_config ''M3'' timeouts 3)
        (Release ''M3'' False good_verdict)) [''M3'', ''M4''])"
proof -
  have h1: "\<not> already_processed (after_cycles example_config ''M3'' timeouts 2)
        (key_for ''M3'' (current_schema_version example_config))"
    by (simp add: run_defs)
  have h2: "fst (snd (classify_stage example_config (after_cycles example_config ''M3'' timeouts 2)
        ''M3'' (no_snippets ''M3'') (timeouts ''M3''))) = None"
    by (simp add: run_defs)
  have h3: "tally (after_cycles example_config ''M3'' timeouts 2)
        (key_for ''M3'' (current_schema_version example_config)) = 2"
    by (simp add: run_defs)
  have h4: "status (after_cycles example_config ''M3'' timeouts 2) ''M3'' = FAILED"
    by (simp add: run_defs)
  have q: "status (after_cycles example_config ''M3'' timeouts 3) ''M3'' = QUARANTINED"
    by (simp add: run_defs)
  note t1 = quarantine_at_threshold [where s = "after_cycles example_config ''M3'' timeouts 2"
      and m = "''M3''" and cfg = example_config and r_out = "no_snippets ''M3''"
      and c_outs = "timeouts ''M3''", THEN conjunct2, THEN conjunct1, THEN mp,
      OF conjI [OF h1 h2]]
  have c1: "status (process_message example_config (after_cycles example_config ''M3'' timeouts 2)
        ''M3'' (no_snippets ''M3'') (timeouts ''M3'')) ''M3'' = QUARANTINED"
    using t1 h3 by (simp add: example_config_def default_config_def)
  note t2 = quarantine_at_threshold [where s = "after_cycles example_config ''M3'' timeouts 3"
      and m = "''M3''" and cfg = example_config and batch = "[''M3'', ''M4'']"
      and evs = "[Cycle [''M3'', ''M4''] no_snippets third_time_lucky, CooldownElapsed Classifier,
         Release ''M4'' True good_verdict]" and manual_review = False and j = good_verdict,
      THEN conjunct2, THEN conjunct2, THEN mp, OF q]
  have c2: "''M3'' \<notin> set (pickup (after_cycles example_config ''M3'' timeouts 3) [''M3'', ''M4''])"
    using t2 by (rule conjunct1)
  have c3: "status (run_events example_config (after_cycles example_config ''M3'' timeouts 3)
        [Cycle [''M3'', ''M4''] no_snippets third_time_lucky, CooldownElapsed Classifier,
         Release ''M4'' True good_verdict]) ''M3'' = QUARANTINED"
    using t2 by simp
  have c4: "''M3'' \<in> set (pickup (apply_event example_config
        (after_cycles example_config ''M3'' timeouts 3)
        (Release ''M3'' False good_verdict)) [''M3'', ''M4''])"
    using t2 by simp
  show ?thesis
    by (intro conjI h1 h2 h3 h4 c1 q c2 c3 c4)
qed

text \<open>
  Claim C5. A quarantined message stays quarantined through any events that do not
  release it. Releasing it makes it pending, or classified with a manual review, and
  sets its tally to 0. Between two points of an execution with no release of the message
  in between, its status never moves back along pending, classifying, and the three
  outcomes.
\<close>

theorem status_monotone_but_release:
  "(status s m = QUARANTINED \<and> (\<forall>e\<in>set evs. \<not> releases m e) \<longrightarrow>
      status (run_events cfg s evs) m = QUARANTINED) \<and>
   (status s m = QUARANTINED \<longrightarrow>
      status (apply_event cfg s (Release m manual_review j)) m
        = (if manual_review then CLASSIFIED else PENDING) \<and>
      tally (apply_event cfg s (Release m manual_review j)) (key_for m (current_schema_version cfg)) = 0) \<and>
   ((\<forall>e\<in>set later. \<not> releases m e) \<longrightarrow>
      stage (status (run_events cfg s past) m)
        \<le> stage (status (run_events cfg s (past @ later)) m))"
proof -
  have a: "status s m = QUARANTINED \<and> (\<forall>e\<in>set evs. \<not> releases m e) \<longrightarrow>
      status (run_events cfg s evs) m = QUARANTINED"
    using run_events_quarantined [of s m evs cfg] by blast
  have b: "status s m = QUARANTINED \<longrightarrow>
      status (apply_event cfg s (Release m manual_review j)) m
        = (if manual_review then CLASSIFIED else PENDING) \<and>
      tally (apply_event cfg s (Release m manual_review j)) (key_for m (current_schema_version cfg)) = 0"
    using release_quarantined [of s m cfg manual_review j] by simp
  have c: "(\<forall>e\<in>set later. \<not> releases m e) \<longrightarrow>
      stage (status (run_events cfg s past) m)
        \<le> stage (status (run_events cfg s (past @ later)) m)"
    using run_events_stage [of later m "run_events cfg s past" cfg]
    by (simp add: run_events_append)
  show ?thesis using a b c by blast
qed

theorem status_monotone_but_release_witness:
  "status (after_cycles example_config ''M3'' timeouts 3) ''M3'' = QUARANTINED \<and>
   status (run_events example_config (after_cycles example_config ''M3'' timeouts 3)
        [Cycle [''M3''] no_snippets third_time_lucky, CooldownElapsed Classifier]) ''M3''
     = QUARANTINED \<and>
   status (apply_event example_config (after_cycles example_config ''M3'' timeouts 3)
        (Release ''M3'' True good_verdict)) ''M3'' = CLASSIFIED \<and>
   status (apply_event example_config (after_cycles example_config ''M3'' timeouts 3)
        (Release ''M3'' False good_verdict)) ''M3'' = PENDING \<and>
   tally (apply_event example_config (after_cycles example_config ''M3'' timeouts 3)
        (Release ''M3'' True good_verdict)) (key_for ''M3'' (current_schema_version example_config)) = 0 \<and>
   stage (status (run_events example_config initial_orchestrator
        [Cycle [''M3''] no_snippets timeouts]) ''M3'')
     \<le> stage (status (run_events example_config initial_orchestrator
        ([Cycle [''M3''] no_snippets timeouts] @
         [Cycle [''M3''] no_snippets timeouts, Cycle [''M3''] no_snippets timeouts])) ''M3'')"
proof -
  have q: "status (after_cycles example_config ''M3'' timeouts 3) ''M3'' = QUARANTINED"
    by (simp add: run_defs)
  have nr: "\<forall>e\<in>set [Cycle [''M3''] no_snippets third_time_lucky, CooldownElapsed Classifier].
      \<not> releases ''M3'' e"
    by simp
  have c1: "status (run_events example_config (after_cycles example_config ''M3'' timeouts 3)
        [Cycle [''M3''] no_snippets third_time_lucky, CooldownElapsed Classifier]) ''M3''
     = QUARANTINED"
    by (rule status_monotone_but_release [THEN conjunct1, THEN mp, OF conjI [OF q nr]])
  note r1 = status_monotone_but_release [where s = "after_cycles example_config ''M3'' timeouts 3"
      and m = "''M3''" and cfg = example_config and manual_review = True and j = good_verdict,
      THEN conjunct2, THEN conjunct1, THEN mp, OF q]
  note r2 = status_monotone_but_release [where s = "after_cycles example_config ''M3'' timeouts 3"
      and m = "''M3''" and cfg = example_config and manual_review = False and j = good_verdict,
      THEN conjunct2, THEN conjunct1, THEN mp, OF q]
  have c2: "status (apply_event example_config (after_cycles example_config ''M3'' timeouts 3)
        (Release ''M3'' True good_verdict)) ''M3'' = CLASSIFIED"
    using r1 by simp
  have c3: "status (apply_event example_config (after_cycles example_config ''M3'' timeouts 3)
        (Release ''M3'' False good_verdict)) ''M3'' = PENDING"
    using r2 by simp
  have c4: "tally (apply_event example_config (after_cycles example_config ''M3'' timeouts 3)
        (Release ''M3'' True good_verdict)) (key_for ''M3'' (current_schema_version example_config)) = 0"
    using r1 by simp
  have nr2: "\<forall>e\<in>set [Cycle [''M3''] no_snippets timeouts, Cycle [''M3''] no_snippets timeouts].
      \<not> releases ''M3'' e"
    by simp
  have c5: "stage (status (run_events example_config initial_orchestrator
        [Cycle [''M3''] no_snippets timeouts]) ''M3'')
     \<le> stage (status (run_events example_config initial_orchestrator
        ([Cycle [''M3''] no_snippets timeouts] @
         [Cycle [''M3''] no_snippets timeouts, Cycle [''M3''] no_snippets timeouts])) ''M3'')"
    by (rule status_monotone_but_release [THEN conjunct2, THEN conjunct2, THEN mp, OF nr2])
  show ?thesis
    by (intro conjI q c1 c2 c3 c4 c5)
qed

subsection \<open>Permanent errors\<close>

text \<open>
  Claim C6, as stated, fails: a permanent error is said to mark the message failed. After
  two cycles in which the classifier returned a confidence of 1.5 for message \<^verbatim>\<open>M2\<close>,
  the third attempt fails with the same permanent error and the message is quarantined.
\<close>

theorem permanent_error_counterexample:
  "attempt example_config (out_of_range ''M2'' 1) = Inl OutOfRangeConfidence \<and>
   classify_error OutOfRangeConfidence = Permanent \<and>
   status (after_cycles example_config ''M2'' out_of_range 2) ''M2'' = FAILED \<and>
   status (process_message example_config (after_cycles example_config ''M2'' out_of_range 2)
             ''M2'' (no_snippets ''M2'') (out_of_range ''M2'')) ''M2'' = QUARANTINED"
  by (simp add: run_defs)

text \<open>
  Claim C6, amended. When the first attempt at a message ends in a permanent error (an
  error of the classifier that the retry policy classifies permanent, or a verdict that
  fails validation, such as a confidence outside 0 to 1), the message is marked failed,
  or quarantined when this failure brings its tally to the quarantine threshold; the
  classifier was called once, no retry was counted, no result was persisted, and the
  classifier's breaker is as it was.
\<close>

theorem permanent_error_single_attempt:
  "(\<not> (0 \<le> judged_confidence j \<and> judged_confidence j \<le> 1) \<longrightarrow>
      attempt cfg (Verdict j) = Inl OutOfRangeConfidence \<and>
      classify_error OutOfRangeConfidence = Permanent) \<and>
   (\<not> already_processed s (key_for m (current_schema_version cfg)) \<and>
    breaker_allows (breakers s Classifier) \<and> 0 < max_attempts cfg \<and>
    attempt cfg (c_outs 1) = Inl e \<and> classify_error e = Permanent \<longrightarrow>
      status (process_message cfg s m r_out c_outs) m
        = (if tally s (key_for m (current_schema_version cfg)) + 1 \<ge> quarantine_threshold cfg
           then QUARANTINED else FAILED) \<and>
      calls (process_message cfg s m r_out c_outs) Classifier = calls s Classifier + 1 \<and>
      retry_attempts (process_message cfg s m r_out c_outs) = retry_attempts s \<and>
      results (process_message cfg s m r_out c_outs) = results s \<and>
      breakers (process_message cfg s m r_out c_outs) Classifier = breakers s Classifier)"
  using out_of_range_is_permanent [of j cfg]
    process_message_permanent [of s m cfg c_outs e r_out]
  by blast

theorem permanent_error_single_attempt_witness:
  "\<not> (0 \<le> judged_confidence bad_verdict \<and> judged_confidence bad_verdict \<le> 1) \<and>
   \<not> already_processed initial_orchestrator (key_for ''M2'' (current_schema_version example_config)) \<and>
   breaker_allows (breakers initial_orchestrator Classifier) \<and>
   0 < max_attempts example_config \<and>
   attempt example_config (out_of_range ''M2'' 1) = Inl OutOfRangeConfidence \<and>
   classify_error OutOfRangeConfidence = Permanent \<and>
   status (process_message example_config initial_orchestrator ''M2'' (no_snippets ''M2'')
             (out_of_range ''M2'')) ''M2'' = FAILED \<and>
   calls (process_message example_config initial_orchestrator ''M2'' (no_snippets ''M2'')
             (out_of_range ''M2'')) Classifier = 1 \<and>
   retry_attempts (process_message example_config initial_orchestrator ''M2'' (no_snippets ''M2'')
             (out_of_range ''M2'')) Classifier = 0 \<and>
   results (process_message example_config initial_orchestrator ''M2'' (no_snippets ''M2'')
             (out_of_range ''M2'')) = [] \<and>
   breakers (process_message example_config initial_orchestrator ''M2'' (no_snippets ''M2'')
             (out_of_range ''M2'')) Classifier = \<lparr>mode = Closed, window_failures = 0\<rparr>"
proof -
  have h0: "\<not> (0 \<le> judged_confidence bad_verdict \<and> judged_confidence bad_verdict \<le> 1)"
    by (simp add: bad_verdict_def)
  have h1: "\<not> already_processed initial_orchestrator (key_for ''M2'' (current_schema_version example_config))"
    by (simp add: already_processed_def initial_orchestrator_def)
  have h2: "breaker_allows (breakers initial_orchestrator Classifier)"
    by (simp add: breaker_allows_def initial_orchestrator_def)
  have h3: "0 < max_attempts example_config"
    by (simp add: example_config_def default_config_def)
  have h4: "attempt example_config (out_of_range ''M2'' 1) = Inl OutOfRangeConfidence"
    using permanent_error_single_attempt [THEN conjunct1, of bad_verdict example_config] h0
    by (simp add: out_of_range_def)
  have h5: "classify_error OutOfRangeConfidence = Permanent"
    by simp
  note t = permanent_error_single_attempt [where s = initial_orchestrator and m = "''M2''"
      and cfg = example_config and c_outs = "out_of_range ''M2''" and e = OutOfRangeConfidence
      and r_out = "no_snippets ''M2''", THEN conjunct2, THEN mp,
      OF conjI [OF h1 conjI [OF h2 conjI [OF h3 conjI [OF h4 h5]]]]]
  have c1: "status (process_message example_config initial_orchestrator ''M2'' (no_snippets ''M2'')
             (out_of_range ''M2'')) ''M2'' = FAILED"
    using t by (simp add: initial_orchestrator_def example_config_def default_config_def)
  have c2: "calls (process_message example_config initial_orchestrator ''M2'' (no_snippets ''M2'')
             (out_of_range ''M2'')) Classifier = 1"
    using t by (simp add: initial_orchestrator_def)
  have c3: "retry_attempts (process_message example_config initial_orchestrator ''M2''
             (no_snippets ''M2'') (out_of_range ''M2'')) Classifier = 0"
    using t by (simp add: initial_orchestrator_def)
  have c4: "results (process_message example_config initial_orchestrator ''M2'' (no_snippets ''M2'')
             (out_of_range ''M2'')) = []"
    using t by (simp add: initial_orchestrator_def)
  have c5: "breakers (process_message example_config initial_orchestrator ''M2'' (no_snippets ''M2'')
             (out_of_range ''M2'')) Classifier = \<lparr>mode = Closed, window_failures = 0\<rparr>"
    using t by (simp add: initial_orchestrator_def)
  show ?thesis
    by (intro conjI h0 h1 h2 h3 h4 h5 c1 c2 c3 c4 c5)
qed

subsection \<open>Retries\<close>

text \<open>
  Claim C7, as stated, fails in its second half: running out of attempts is said to move
  the message to failed. After two cycles in which every attempt at message \<^verbatim>\<open>M1\<close>
  timed out, the third cycle makes its three attempts, all time out, and the message is
  quarantined. The first half needs the classifier's breaker to let the three attempts
  through: with a breaker that opens above one failure, two timeouts open it and the
  third attempt, which would succeed, is never made.
\<close>

theorem retry_budget_counterexample:
  "max_attempts example_config = 3 \<and>
   attempt example_config (timeouts ''M1'' 1) = Inl Timeout \<and>
   attempt example_config (timeouts ''M1'' 2) = Inl Timeout \<and>
   attempt example_config (timeouts ''M1'' 3) = Inl Timeout \<and>
   classify_error Timeout = Transient \<and>
   status (after_cycles example_config ''M1'' timeouts 2) ''M1'' = FAILED \<and>
   calls (process_message example_config (after_cycles example_config ''M1'' timeouts 2)
            ''M1'' (no_snippets ''M1'') (timeouts ''M1'')) Classifier
     = calls (after_cycles example_config ''M1'' timeouts 2) Classifier + 3 \<and>
   status (process_message example_config (after_cycles example_config ''M1'' timeouts 2)
             ''M1'' (no_snippets ''M1'') (timeouts ''M1'')) ''M1'' = QUARANTINED \<and>
   attempt (default_config 1 ''v2'' (\<lambda>_. True)) (third_time_lucky ''M1'' 3) = Inr good_verdict \<and>
   status (process_message (default_config 1 ''v2'' (\<lambda>_. True)) initial_orchestrator
             ''M1'' (no_snippets ''M1'') (third_time_lucky ''M1'')) ''M1'' = FAILED"
  by (simp add: run_defs)

text \<open>
  Claim C7, amended. With three attempts allowed and the classifier's breaker closed with
  room for two more failures, a message whose first two attempts fail with transient
  errors and whose third succeeds ends classified, with two retries counted (so the retry
  counter is at least 2) and exactly one result persisted for its message identity and
  schema version. When every attempt up to the maximum fails with a transient error, the
  classifier is called at most the maximum number of times in the cycle and the message
  is marked failed, or quarantined when this failure brings its tally to the quarantine
  threshold.
\<close>

theorem retry_then_succeed_or_fail:
  "(\<not> already_processed s (key_for m (current_schema_version cfg)) \<and>
    max_attempts cfg = 3 \<and>
    mode (breakers s Classifier) = Closed \<and>
    window_failures (breakers s Classifier) + 2 \<le> breaker_threshold cfg \<and>
    attempt cfg (c_outs 1) = Inl e \<and> classify_error e = Transient \<and>
    attempt cfg (c_outs 2) = Inl e' \<and> classify_error e' = Transient \<and>
    attempt cfg (c_outs 3) = Inr j \<longrightarrow>
      status (process_message cfg s m r_out c_outs) m = CLASSIFIED \<and>
      retry_attempts (process_message cfg s m r_out c_outs) Classifier
        = retry_attempts s Classifier + 2 \<and>
      retry_attempts (process_message cfg s m r_out c_outs) Classifier \<ge> 2 \<and>
      length (results_for (process_message cfg s m r_out c_outs) m (current_schema_version cfg)) = 1) \<and>
   (\<not> already_processed s (key_for m (current_schema_version cfg)) \<and>
    (\<forall>i. 1 \<le> i \<and> i \<le> max_attempts cfg \<longrightarrow>
        (\<exists>x. attempt cfg (c_outs i) = Inl x \<and> classify_error x = Transient)) \<longrightarrow>
      status (process_message cfg s m r_out c_outs) m
        = (if tally s (key_for m (current_schema_version cfg)) + 1 \<ge> quarantine_threshold cfg
           then QUARANTINED else FAILED) \<and>
      calls (process_message cfg s m r_out c_outs) Classifier
        \<le> calls s Classifier + max_attempts cfg \<and>
      results (process_message cfg s m r_out c_outs) = results s)"
proof -
  have a: "status (process_message cfg s m r_out c_outs) m = CLASSIFIED \<and>
      retry_attempts (process_message cfg s m r_out c_outs) Classifier
        = retry_attempts s Classifier + 2 \<and>
      retry_attempts (process_message cfg s m r_out c_outs) Classifier \<ge> 2 \<and>
      length (results_for (process_message cfg s m r_out c_outs) m (current_schema_version cfg)) = 1"
    if "\<not> already_processed s (key_for m (current_schema_version cfg))"
      "max_attempts cfg = 3" "mode (breakers s Classifier) = Closed"
      "window_failures (breakers s Classifier) + 2 \<le> breaker_threshold cfg"
      "attempt cfg (c_outs 1) = Inl e" "classify_error e = Transient"
      "attempt cfg (c_outs 2) = Inl e'" "classify_error e' = Transient"
      "attempt cfg (c_outs 3) = Inr j"
    using process_message_retried [OF that, of r_out] by simp
  have b: "status (process_message cfg s m r_out c_outs) m
        = (if tally s (key_for m (current_schema_version cfg)) + 1 \<ge> quarantine_threshold cfg
           then QUARANTINED else FAILED) \<and>
      calls (process_message cfg s m r_out c_outs) Classifier
        \<le> calls s Classifier + max_attempts cfg \<and>
      results (process_message cfg s m r_out c_outs) = results s"
    if "\<not> already_processed s (key_for m (current_schema_version cfg))"
      "\<forall>i. 1 \<le> i \<and> i \<le> max_attempts cfg \<longrightarrow>
        (\<exists>x. attempt cfg (c_outs i) = Inl x \<and> classify_error x = Transient)"
    by (rule process_message_exhausted [OF that])
  show ?thesis using a b by blast
qed

theorem retry_then_succeed_or_fail_witness:
  "\<not> already_processed initial_orchestrator (key_for ''M1'' (current_schema_version example_config)) \<and>
   max_attempts example_config = 3 \<and>
   mode (breakers initial_orchestrator Classifier) = Closed \<and>
   window_failures (breakers initial_orchestrator Classifier) + 2 \<le> breaker_threshold example_config \<and>
   attempt example_config (third_time_lucky ''M1'' 1) = Inl Timeout \<and>
   attempt example_config (third_time_lucky ''M1'' 2) = Inl Timeout \<and>
   classify_error Timeout = Transient \<and>
   attempt example_config (third_time_lucky ''M1'' 3) = Inr good_verdict \<and>
   status (process_message example_config initial_orchestrator ''M1'' (no_snippets ''M1'')
             (third_time_lucky ''M1'')) ''M1'' = CLASSIFIED \<and>
   retry_attempts (process_message example_config initial_orchestrator ''M1'' (no_snippets ''M1'')
             (third_time_lucky ''M1'')) Classifier = 2 \<and>
   length (results_for (process_message example_config initial_orchestrator ''M1''
             (no_snippets ''M1'') (third_time_lucky ''M1'')) ''M1'' ''v2'') = 1 \<and>
   attempt example_config (timeouts ''M1'' 1) = Inl Timeout \<and>
   attempt example_config (timeouts ''M1'' 2) = Inl Timeout \<and>
   attempt example_config (timeouts ''M1'' 3) = Inl Timeout \<and>
   status (process_message example_config initial_orchestrator ''M1'' (no_snippets ''M1'')
             (timeouts ''M1'')) ''M1'' = FAILED \<and>
   calls (process_message example_config initial_orchestrator ''M1'' (no_snippets ''M1'')
             (timeouts ''M1'')) Classifier \<le> 3 \<and>
   results (process_message example_config initial_orchestrator ''M1'' (no_snippets ''M1'')
             (timeouts ''M1'')) = []"
proof -
  have h1: "\<not> already_processed initial_orchestrator (key_for ''M1'' (current_schema_version example_config))"
    by (simp add: already_processed_def initial_orchestrator_def)
  have h2: "max_attempts example_config = 3"
    by (simp add: example_config_def default_config_def)
  have h3: "mode (breakers initial_orchestrator Classifier) = Closed"
    by (simp add: initial_orchestrator_def)
  have h4: "window_failures (breakers initial_orchestrator Classifier) + 2 \<le> breaker_threshold example_config"
    by (simp add: initial_orchestrator_def example_config_def default_config_def)
  have h5: "attempt example_config (third_time_lucky ''M1'' 1) = Inl Timeout"
    by (simp add: attempt_def third_time_lucky_def)
  have h6: "attempt example_config (third_time_lucky ''M1'' 2) = Inl Timeout"
    by (simp add: attempt_def third_time_lucky_def)
  have h7: "classify_error Timeout = Transient"
    by simp
  have h8: "attempt example_config (third_time_lucky ''M1'' 3) = Inr good_verdict"
    by (simp add: attempt_def third_time_lucky_def validate_def good_verdict_def
        example_config_def default_config_def)
  note t1 = retry_then_succeed_or_fail [where s = initial_orchestrator and m = "''M1''"
      and cfg = example_config and c_outs = "third_time_lucky ''M1''" and e = Timeout
      and e' = Timeout and j = good_verdict and r_out = "no_snippets ''M1''",
      THEN conjunct1, THEN mp,
      OF conjI [OF h1 conjI [OF h2 conjI [OF h3 conjI [OF h4 conjI [OF h5 conjI [OF h7
         conjI [OF h6 conjI [OF h7 h8]]]]]]]]]
  have c1: "status (process_message example_config initial_orchestrator ''M1'' (no_snippets ''M1'')
             (third_time_lucky ''M1'')) ''M1'' = CLASSIFIED"
    using t1 by simp
  have c2: "retry_attempts (process_message example_config initial_orchestrator ''M1''
             (no_snippets ''M1'') (third_time_lucky ''M1'')) Classifier = 2"
    using t1 by (simp add: initial_orchestrator_def)
  have c3: "length (results_for (process_message example_config initial_orchestrator ''M1''
             (no_snippets ''M1'') (third_time_lucky ''M1'')) ''M1'' ''v2'') = 1"
    using t1 by (simp add: example_config_def default_config_def)
  have g: "attempt example_config (timeouts ''M1'' i) = Inl Timeout" for i
    by (simp add: attempt_def timeouts_def)
  have all: "\<forall>i. 1 \<le> i \<and> i \<le> max_attempts example_config \<longrightarrow>
      (\<exists>e. attempt example_config (timeouts ''M1'' i) = Inl e \<and> classify_error e = Transient)"
    using g by simp
  note t2 = retry_then_succeed_or_fail [where s = initial_orchestrator and m = "''M1''"
      and cfg = example_config and c_outs = "timeouts ''M1''" and r_out = "no_snippets ''M1''",
      THEN conjunct2, THEN mp, OF conjI [OF h1 all]]
  have d1: "status (process_message example_config initial_orchestrator ''M1'' (no_snippets ''M1'')
             (timeouts ''M1'')) ''M1'' = FAILED"
    using t2 by (simp add: initial_orchestrator_def example_config_def default_config_def)
  have d2: "calls (process_message example_config initial_orchestrator ''M1'' (no_snippets ''M1'')
             (timeouts ''M1'')) Classifier \<le> 3"
    using t2 by (simp add: initial_orchestrator_def example_config_def default_config_def)
  have d3: "results (process_message example_config initial_orchestrator ''M1'' (no_snippets ''M1'')
             (timeouts ''M1'')) = []"
    using t2 by (simp add: initial_orchestrator_def)
  show ?thesis
    by (intro conjI h1 h2 h3 h4 h5 h6 h7 h8 c1 c2 c3 g d1 d2 d3)
qed

end
